theory Spec2Isabelle
  imports Main "HOL-Library.Word"
begin

unbundle bit_operations_syntax

section \<open>Machine integers and bit fields\<close>

type_synonym u64 = "64 word"

text \<open>
  The field \<open>bits [hi:lo]\<close> of a register value, read as an unsigned number: the
  notation of the processor manuals, written with division and remainder so that it
  does not depend on the shifts and masks of the program.
\<close>

definition bits :: "nat \<Rightarrow> nat \<Rightarrow> u64 \<Rightarrow> int" where
  "bits hi lo w = (uint w div 2 ^ lo) mod 2 ^ (Suc hi - lo)"

section \<open>Capability probing (cpuid)\<close>

text \<open>
  \<open>pmcinfo\<close>, \<open>cpu_family\<close> and \<open>cpu_model\<close> execute \<open>cpuid\<close> and decode the value
  left in \<open>rax\<close>. The instruction is the hardware's answer; the functions below take
  that value as their argument and return the C \<open>int\<close> results (all of them are
  masked to at most 8 bits before use, so no \<open>int\<close> arithmetic overflows).
\<close>

record pmc_info_t =
  version_id :: int
  num_pmc_per_thread :: int
  pmc_bitwidth :: int

definition pmcinfo :: "u64 \<Rightarrow> pmc_info_t" where
  "pmcinfo rax =
     \<lparr> version_id = uint (rax AND 0xff),
       num_pmc_per_thread = uint (drop_bit 8 rax AND 0xff),
       pmc_bitwidth = uint (drop_bit 16 rax AND 0xff) \<rparr>"

definition cpu_family :: "u64 \<Rightarrow> int" where
  "cpu_family rax =
     (let family_id = uint (drop_bit 8 rax AND 0x0f);
          extended_family_id = uint (drop_bit 20 rax AND 0xff)
      in if family_id \<noteq> 0x0f then family_id
         else extended_family_id + family_id)"

definition cpu_model :: "u64 \<Rightarrow> int" where
  "cpu_model rax =
     (let family_id = uint (drop_bit 8 rax AND 0x0f);
          model_id = uint (drop_bit 4 rax AND 0x0f);
          extended_model_id = uint (drop_bit 16 rax AND 0x0f)
      in if family_id = 0x06 \<or> family_id = 0x0f
         then push_bit 4 extended_model_id + model_id
         else model_id)"

section \<open>Events, registers and the event-select encoding\<close>

record pmc_event_type_t =
  event :: int
  umask :: int

definition UOPS_DISPATCHED_PORT :: "pmc_event_type_t list" where
  "UOPS_DISPATCHED_PORT =
     [\<lparr>event = 0xa1, umask = 0x01\<rparr>,
      \<lparr>event = 0xa1, umask = 0x02\<rparr>,
      \<lparr>event = 0xa1, umask = 0x0c\<rparr>,
      \<lparr>event = 0xa1, umask = 0x30\<rparr>,
      \<lparr>event = 0xa1, umask = 0x40\<rparr>,
      \<lparr>event = 0xa1, umask = 0x80\<rparr>]"

type_synonym msr_addr_t = nat

definition IA32_PMC :: "msr_addr_t list" where
  "IA32_PMC = [0xc1, 0xc2, 0xc3, 0xc4, 0xc5, 0xc6, 0xc7, 0xc8]"

definition IA32_PERFEVTSEL :: "msr_addr_t list" where
  "IA32_PERFEVTSEL = [0x186, 0x187, 0x188, 0x189, 0x18a, 0x18b, 0x18c, 0x18d]"

record pmc_config_t =
  event_select :: "8 word"
  unit_mask :: "8 word"
  user_mode :: bool
  operating_system_mode :: bool
  edge_detect :: bool
  pin_control :: bool
  interrupt_enable :: bool
  any_thread :: bool
  enable_counters :: bool
  invert_counter_mask :: bool
  counter_mask :: "8 word"
  reserved :: "32 word"

text \<open>
  The struct is a packed sequence of bit-fields. The program runs on x86-64 only (it
  executes \<open>cpuid\<close> and \<open>rdtsc\<close>), where the compiler allocates bit-fields in
  declaration order starting at the least significant bit of the storage unit, and the
  storage is little-endian, so reading the struct through a \<open>u_int64_t\<close> pointer gives
  the fields packed from bit 0 upwards. \<open>bit_fields\<close> lists each field with its
  declared width, in declaration order; \<open>pack\<close> is that allocation rule.
\<close>

definition bit_fields :: "pmc_config_t \<Rightarrow> (nat \<times> u64) list" where
  "bit_fields c =
     [(8, ucast (event_select c)),
      (8, ucast (unit_mask c)),
      (1, of_bool (user_mode c)),
      (1, of_bool (operating_system_mode c)),
      (1, of_bool (edge_detect c)),
      (1, of_bool (pin_control c)),
      (1, of_bool (interrupt_enable c)),
      (1, of_bool (any_thread c)),
      (1, of_bool (enable_counters c)),
      (1, of_bool (invert_counter_mask c)),
      (8, ucast (counter_mask c)),
      (32, ucast (reserved c))]"

fun pack :: "(nat \<times> u64) list \<Rightarrow> u64" where
  "pack [] = 0"
| "pack ((width, v) # fs) = take_bit width v OR push_bit width (pack fs)"

definition sizeof_bits :: "(nat \<times> u64) list \<Rightarrow> nat" where
  "sizeof_bits fs = sum_list (map fst fs)"

definition as_u64 :: "pmc_config_t \<Rightarrow> u64" where
  "as_u64 c = pack (bit_fields c)"

text \<open>\<open>memset(&conf, 0, sizeof(pmc_config_t))\<close>\<close>

definition conf_zero :: pmc_config_t where
  "conf_zero =
     \<lparr> event_select = 0, unit_mask = 0, user_mode = False,
       operating_system_mode = False, edge_detect = False, pin_control = False,
       interrupt_enable = False, any_thread = False, enable_counters = False,
       invert_counter_mask = False, counter_mask = 0, reserved = 0 \<rparr>"

text \<open>
  The configuration built in the body of the configure loop. Assigning the \<open>int\<close>
  fields of the event to 8-bit fields keeps their low 8 bits.
\<close>

definition port_conf :: "pmc_event_type_t \<Rightarrow> pmc_config_t" where
  "port_conf port =
     conf_zero
       \<lparr> unit_mask := word_of_int (umask port),
         event_select := word_of_int (event port),
         user_mode := True,
         operating_system_mode := True,
         any_thread := True,
         enable_counters := True \<rparr>"

section \<open>The operating system and the MSR handle\<close>

text \<open>
  The program talks to the machine through \<open>open\<close>, \<open>pwrite\<close> and \<open>pread\<close> on
  \<open>/dev/cpu/N/msr\<close>, through \<open>rdtsc\<close> and \<open>usleep\<close>, and it prints on the standard error
  stream. The calls made so far are recorded in a trace; what the system answers to a
  call is given by an \<open>os\<close> record of functions of that trace, so the model is
  deterministic and the environment is arbitrary. The handles are closed by their
  destructors when the process ends; \<open>close\<close> is left out of the trace. \<open>sys_alloc\<close>
  says whether the allocator grants a vector of the given number of cores, the one
  allocation whose size the input decides; the others are taken to succeed.
\<close>

datatype io_event =
    Open string
  | Pwrite int u64 nat
  | Pread int nat
  | Rdtsc
  | Usleep nat

record os =
  sys_open :: "io_event list \<Rightarrow> string \<Rightarrow> int"
  sys_pwrite :: "io_event list \<Rightarrow> int \<Rightarrow> u64 \<Rightarrow> nat \<Rightarrow> int"
  sys_pread :: "io_event list \<Rightarrow> int \<Rightarrow> nat \<Rightarrow> int \<times> u64"
  hw_rdtsc :: "io_event list \<Rightarrow> u64"
  sys_alloc :: "io_event list \<Rightarrow> nat \<Rightarrow> bool"

record world =
  trace :: "io_event list"
  stderr :: string

text \<open>
  How a run can stop: \<open>exit(status)\<close>, an uncaught \<open>std::runtime_error\<close> or
  \<open>std::bad_alloc\<close>. \<open>EXIT_FAILURE\<close> is the C library's, 1 on Linux.

  The inputs can also lead the program to an operation for which C++ defines no
  behaviour: indexing a vector or an array past its end, an integer division by zero,
  a signed addition that overflows. The source does not check for any of them. The
  result \<open>Undefined\<close> marks that the run has arrived at such an operation, with the
  world in which it arrives there. It is not a way of stopping: what the program does
  from there on is not determined by the source, and the model says nothing about it.
\<close>

definition EXIT_FAILURE :: int where
  "EXIT_FAILURE = 1"

definition INT_MAX :: int where
  "INT_MAX = 2147483647"

datatype failure =
    Exit int
  | RuntimeError string
  | BadAlloc

datatype undefined_op =
    IndexOutOfRange
  | DivisionByZero
  | SignedOverflow

datatype 'a result =
    Fail failure world
  | Undefined undefined_op world
  | Ok 'a world

fun bind :: "'a result \<Rightarrow> ('a \<Rightarrow> world \<Rightarrow> 'b result) \<Rightarrow> 'b result" where
  "bind (Fail f w) k = Fail f w"
| "bind (Undefined u w) k = Undefined u w"
| "bind (Ok x w) k = k x w"

definition emit :: "io_event \<Rightarrow> world \<Rightarrow> world" where
  "emit e w = w\<lparr>trace := trace w @ [e]\<rparr>"

definition print :: "string \<Rightarrow> world \<Rightarrow> world" where
  "print s w = w\<lparr>stderr := stderr w @ s\<rparr>"

datatype msr_t = Msr (fd: int)

text \<open>The constructor: \<open>fd = open(path, O_RDWR)\<close>; the result is not checked.\<close>

definition msr_open :: "os \<Rightarrow> string \<Rightarrow> world \<Rightarrow> msr_t \<times> world" where
  "msr_open sys path w = (Msr (sys_open sys (trace w) path), emit (Open path) w)"

definition wrmsr :: "os \<Rightarrow> msr_t \<Rightarrow> nat \<Rightarrow> u64 \<Rightarrow> world \<Rightarrow> unit result" where
  "wrmsr sys m reg val w =
     (if sys_pwrite sys (trace w) (fd m) val reg \<noteq> 8
      then Fail (RuntimeError ''failed write'') (emit (Pwrite (fd m) val reg) w)
      else Ok () (emit (Pwrite (fd m) val reg) w))"

definition rdmsr :: "os \<Rightarrow> msr_t \<Rightarrow> nat \<Rightarrow> world \<Rightarrow> u64 result" where
  "rdmsr sys m reg w =
     (case sys_pread sys (trace w) (fd m) reg of
        (n, val) \<Rightarrow>
          if n \<noteq> 8
          then Fail (RuntimeError ''failed read'') (emit (Pread (fd m) reg) w)
          else Ok val (emit (Pread (fd m) reg) w))"

text \<open>
  The number of bytes a \<open>pwrite\<close> or \<open>pread\<close> transferred, from its return value:
  \<open>-1\<close> reports an error, with nothing transferred.
\<close>

definition bytes_transferred :: "int \<Rightarrow> nat" where
  "bytes_transferred r = (if r < 0 then 0 else nat r)"

section \<open>Decimal output\<close>

definition digit_char :: "nat \<Rightarrow> char" where
  "digit_char d = ''0123456789'' ! d"

function digits :: "nat \<Rightarrow> string" where
  "digits n = (if n < 10 then [digit_char n] else digits (n div 10) @ [digit_char (n mod 10)])"
  by pat_completeness auto
termination
  by (relation "measure id") auto

declare digits.simps [simp del]

text \<open>\<open>std::to_string\<close> and \<open>operator<<\<close> on an \<open>int\<close>.\<close>

definition to_string :: "int \<Rightarrow> string" where
  "to_string i = (if i < 0 then ''-'' @ digits (nat (- i)) else digits (nat i))"

definition endl :: string where
  "endl = [CHR 0x0A]"

section \<open>Topology\<close>

text \<open>
  Of the attributes of a logical processor, \<open>main\<close> reads the processor number, the
  core id and the flags. The parser of \<open>/proc/cpuinfo\<close> is the topology provider; its
  result (the processors, or the \<open>std::runtime_error\<close> it throws on a line without a
  colon) is an input here. Core ids are taken small enough for the vector of cores to
  be allocated.
\<close>

record cpu_t =
  id_cpu :: int
  core_id :: int
  flags :: "string set"

definition msr_path :: "cpu_t \<Rightarrow> string" where
  "msr_path cpu = ''/dev/cpu/'' @ to_string (id_cpu cpu) @ ''/msr''"

record machine =
  cpuid_01 :: u64
  cpuid_0a :: u64
  cpuinfo :: "string + cpu_t list"

section \<open>Start-up: gate, handles, configure, reset\<close>

text \<open>
  Line 302: the largest core id, or 0, plus one, in \<open>int\<close> arithmetic. The core ids
  are C \<open>int\<close>s; at \<open>INT_MAX\<close> the addition overflows, which is \<open>None\<close> here.
\<close>

definition num_cores_of :: "cpu_t list \<Rightarrow> int option" where
  "num_cores_of cpus =
     (let m = foldl (\<lambda>a b. max a (core_id b)) 0 cpus
      in if INT_MAX \<le> m then None else Some (m + 1))"

text \<open>
  \<open>for (const auto &cpu : cpus) core_msrs[cpu.core_id].emplace_back(cpu.open_msr());\<close>
  The handle is opened, then filed in the vector of its core.
\<close>

fun open_msrs :: "os \<Rightarrow> cpu_t list \<Rightarrow> msr_t list list \<Rightarrow> world \<Rightarrow> msr_t list list result" where
  "open_msrs sys [] core_msrs w = Ok core_msrs w"
| "open_msrs sys (cpu # cpus) core_msrs w =
     (case msr_open sys (msr_path cpu) w of
        (m, w') \<Rightarrow>
          if core_id cpu < 0 \<or> int (length core_msrs) \<le> core_id cpu
          then Undefined IndexOutOfRange w'
          else open_msrs sys cpus
                 (core_msrs[nat (core_id cpu) := core_msrs ! nat (core_id cpu) @ [m]]) w')"

text \<open>Lines 302 to 305: the number of cores, the vector of cores, the handles.\<close>

definition open_cores :: "os \<Rightarrow> cpu_t list \<Rightarrow> world \<Rightarrow> msr_t list list result" where
  "open_cores sys cpus w =
     (case num_cores_of cpus of
        None \<Rightarrow> Undefined SignedOverflow w
      | Some num_cores \<Rightarrow>
          if \<not> sys_alloc sys (trace w) (nat num_cores) then Fail BadAlloc w
          else open_msrs sys cpus (replicate (nat num_cores) []) w)"

text \<open>
  The body of the two inner loops selects the handle and the slot of event \<open>i\<close>:
  \<open>cpu_idx = i / info.num_pmc_per_thread\<close>, \<open>pmc_idx = i % info.num_pmc_per_thread\<close>,
  \<open>core_msrs[core_id][cpu_idx]\<close> and the register \<open>regs[pmc_idx]\<close>. The division is
  unsigned: \<open>i\<close> is a \<open>size_t\<close>, to which the \<open>int\<close> count is converted.
\<close>

definition size_t_of :: "int \<Rightarrow> nat" where
  "size_t_of n = nat (n mod 2 ^ 64)"

definition slot_of ::
  "int \<Rightarrow> msr_t list \<Rightarrow> msr_addr_t list \<Rightarrow> nat \<Rightarrow> world \<Rightarrow> (msr_t \<times> msr_addr_t) result" where
  "slot_of n msrs regs i w =
     (if size_t_of n = 0 then Undefined DivisionByZero w
      else let cpu_idx = i div size_t_of n; pmc_idx = i mod size_t_of n
           in if length msrs \<le> cpu_idx \<or> length regs \<le> pmc_idx
              then Undefined IndexOutOfRange w
              else Ok (msrs ! cpu_idx, regs ! pmc_idx) w)"

fun configure_events :: "os \<Rightarrow> int \<Rightarrow> msr_t list \<Rightarrow> nat list \<Rightarrow> world \<Rightarrow> unit result" where
  "configure_events sys n msrs [] w = Ok () w"
| "configure_events sys n msrs (i # is) w =
     bind (slot_of n msrs IA32_PERFEVTSEL i w) (\<lambda>(msr, reg) w.
     bind (wrmsr sys msr reg (as_u64 (port_conf (UOPS_DISPATCHED_PORT ! i))) w) (\<lambda>_ w.
     configure_events sys n msrs is w))"

fun configure_cores :: "os \<Rightarrow> int \<Rightarrow> msr_t list list \<Rightarrow> nat list \<Rightarrow> world \<Rightarrow> unit result" where
  "configure_cores sys n core_msrs [] w = Ok () w"
| "configure_cores sys n core_msrs (c # cs) w =
     bind (configure_events sys n (core_msrs ! c) [0..<length UOPS_DISPATCHED_PORT] w) (\<lambda>_ w.
     configure_cores sys n core_msrs cs w)"

definition configure :: "os \<Rightarrow> int \<Rightarrow> msr_t list list \<Rightarrow> world \<Rightarrow> unit result" where
  "configure sys n core_msrs w = configure_cores sys n core_msrs [0..<length core_msrs] w"

fun reset_events :: "os \<Rightarrow> int \<Rightarrow> msr_t list \<Rightarrow> nat list \<Rightarrow> world \<Rightarrow> unit result" where
  "reset_events sys n msrs [] w = Ok () w"
| "reset_events sys n msrs (i # is) w =
     bind (slot_of n msrs IA32_PMC i w) (\<lambda>(msr, reg) w.
     bind (wrmsr sys msr reg 0 w) (\<lambda>_ w.
     reset_events sys n msrs is w))"

fun reset_cores ::
  "os \<Rightarrow> int \<Rightarrow> msr_t list list \<Rightarrow> nat list \<Rightarrow> u64 list list \<Rightarrow> world \<Rightarrow> u64 list list result" where
  "reset_cores sys n core_msrs [] values w = Ok values w"
| "reset_cores sys n core_msrs (c # cs) values w =
     bind (reset_events sys n (core_msrs ! c) [0..<length UOPS_DISPATCHED_PORT] w) (\<lambda>_ w.
     reset_cores sys n core_msrs cs
       (values[c := replicate (length UOPS_DISPATCHED_PORT) 0]) w)"

definition reset :: "os \<Rightarrow> int \<Rightarrow> msr_t list list \<Rightarrow> world \<Rightarrow> u64 list list result" where
  "reset sys n core_msrs w =
     (if \<not> sys_alloc sys (trace w) (length core_msrs) then Fail BadAlloc w
      else reset_cores sys n core_msrs [0..<length core_msrs]
             (replicate (length core_msrs) []) w)"

definition rdtsc :: "os \<Rightarrow> world \<Rightarrow> u64 \<times> world" where
  "rdtsc sys w = (hw_rdtsc sys (trace w), emit Rdtsc w)"

record sampler =
  core_msrs_of :: "msr_t list list"
  values_of :: "u64 list list"
  tsc0_of :: u64

definition banner :: "machine \<Rightarrow> string" where
  "banner hw =
     (let info = pmcinfo (cpuid_0a hw) in
      ''CPU Family: '' @ to_string (cpu_family (cpuid_01 hw)) @ endl @
      ''CPU Model: '' @ to_string (cpu_model (cpuid_01 hw)) @ endl @
      endl @
      ''Version ID of architectural performance monitoring (CPUID.0AH:EAX[7:0]): '' @
        to_string (version_id info) @ endl @
      ''Number of general-purpose performance monitoring counter per logical processor (CPUID.0AH:EAX[15:8]): '' @
        to_string (num_pmc_per_thread info) @ endl @
      ''Bit width of general-purpose performance monitoring counter: '' @
        to_string (pmc_bitwidth info) @ endl @
      endl)"

definition unsupported_message :: "machine \<Rightarrow> string" where
  "unsupported_message hw =
     ''Sorry your CPU is not supported yet: family = '' @ to_string (cpu_family (cpuid_01 hw)) @
     '', '' @ ''model = '' @ to_string (cpu_model (cpuid_01 hw)) @ endl"

definition no_constant_tsc_message :: string where
  "no_constant_tsc_message =
     ''Cannot calculate core utilization because constant_tsc is not available on your CPU.'' @ endl"

text \<open>Lines 302 to 341 of \<open>main\<close>: the handles, configure, reset, the first \<open>rdtsc\<close>.\<close>

definition start_sampler :: "os \<Rightarrow> pmc_info_t \<Rightarrow> cpu_t list \<Rightarrow> world \<Rightarrow> sampler result" where
  "start_sampler sys info cpus w =
     bind (open_cores sys cpus w) (\<lambda>core_msrs w.
     bind (configure sys (num_pmc_per_thread info) core_msrs w) (\<lambda>_ w.
     bind (reset sys (num_pmc_per_thread info) core_msrs w) (\<lambda>values w.
     case rdtsc sys w of
       (tsc0, w) \<Rightarrow>
         Ok \<lparr>core_msrs_of = core_msrs, values_of = values, tsc0_of = tsc0\<rparr> w)))"

text \<open>Lines 296 to 300: the topology and the \<open>constant_tsc\<close> flag of the first processor.\<close>

definition after_gate :: "os \<Rightarrow> machine \<Rightarrow> pmc_info_t \<Rightarrow> world \<Rightarrow> sampler result" where
  "after_gate sys hw info w =
     (case cpuinfo hw of
        Inl what \<Rightarrow> Fail (RuntimeError what) w
      | Inr cpus \<Rightarrow>
          (case cpus of
             [] \<Rightarrow> Undefined IndexOutOfRange w
           | cpu0 # _ \<Rightarrow>
               if ''constant_tsc'' \<notin> flags cpu0
               then Fail (Exit EXIT_FAILURE) (print no_constant_tsc_message w)
               else start_sampler sys info cpus w))"

text \<open>\<open>main\<close> up to the sampling loop.\<close>

definition startup :: "os \<Rightarrow> machine \<Rightarrow> world \<Rightarrow> sampler result" where
  "startup sys hw w =
     (let w = print (banner hw) w;
          info = pmcinfo (cpuid_0a hw)
      in if version_id info < 3 \<or> cpu_family (cpuid_01 hw) \<noteq> 6 \<or> cpu_model (cpuid_01 hw) \<noteq> 42
         then Fail (Exit EXIT_FAILURE) (print (unsupported_message hw) w)
         else after_gate sys hw info w)"

definition world0 :: world where
  "world0 = \<lparr>trace = [], stderr = []\<rparr>"

section \<open>The sampling tick\<close>

text \<open>
  The utilization is computed and printed in \<open>double\<close> arithmetic. The conversions,
  the division, the multiplication and the \<open>%6.2f%%\<close> formatting are the floating-point
  unit's and the C library's; they are parameters of the model.
\<close>

record 'f fpu =
  u64_to_double :: "u64 \<Rightarrow> 'f"
  int_to_double :: "int \<Rightarrow> 'f"
  ddiv :: "'f \<Rightarrow> 'f \<Rightarrow> 'f"
  dmul :: "'f \<Rightarrow> 'f \<Rightarrow> 'f"
  printf_6_2f_percent :: "'f \<Rightarrow> string"

text \<open>\<open>(value - value0) / (double) hz * 100\<close>\<close>

definition utilization :: "'f fpu \<Rightarrow> u64 \<Rightarrow> u64 \<Rightarrow> u64 \<Rightarrow> 'f" where
  "utilization fp val val0 hz =
     dmul fp (ddiv fp (u64_to_double fp (val - val0)) (u64_to_double fp hz)) (int_to_double fp 100)"

fun tick_events ::
  "os \<Rightarrow> 'f fpu \<Rightarrow> int \<Rightarrow> msr_t list \<Rightarrow> u64 \<Rightarrow> nat list \<Rightarrow> u64 list \<Rightarrow> world \<Rightarrow> u64 list result" where
  "tick_events sys fp n msrs hz [] vals w = Ok vals w"
| "tick_events sys fp n msrs hz (i # is) vals w =
     bind (slot_of n msrs IA32_PMC i w) (\<lambda>(msr, reg) w.
     bind (rdmsr sys msr reg w) (\<lambda>val w.
     if length vals \<le> i then Undefined IndexOutOfRange w
     else let val0 = vals ! i;
              w = print (printf_6_2f_percent fp (utilization fp val val0 hz)) w
          in tick_events sys fp n msrs hz is (vals[i := val]) w))"

fun tick_cores ::
  "os \<Rightarrow> 'f fpu \<Rightarrow> int \<Rightarrow> msr_t list list \<Rightarrow> u64 \<Rightarrow> nat list \<Rightarrow> u64 list list \<Rightarrow> world
   \<Rightarrow> u64 list list result" where
  "tick_cores sys fp n core_msrs hz [] values w = Ok values w"
| "tick_cores sys fp n core_msrs hz (c # cs) values w =
     (if length core_msrs \<le> c \<or> length values \<le> c then Undefined IndexOutOfRange w
      else
        bind (tick_events sys fp n (core_msrs ! c) hz [0..<length UOPS_DISPATCHED_PORT]
                (values ! c) (print ''['' w)) (\<lambda>vals w.
        tick_cores sys fp n core_msrs hz cs (values[c := vals]) (print ''] '' w)))"

text \<open>One turn of the \<open>while (true)\<close> loop.\<close>

definition tick :: "os \<Rightarrow> 'f fpu \<Rightarrow> int \<Rightarrow> sampler \<Rightarrow> world \<Rightarrow> sampler result" where
  "tick sys fp n s w =
     (case rdtsc sys (emit (Usleep (1000 * 1000)) w) of
        (tsc, w) \<Rightarrow>
          let hz = tsc - tsc0_of s in
          bind (tick_cores sys fp n (core_msrs_of s) hz [0..<length (core_msrs_of s)]
                  (values_of s) w) (\<lambda>values w.
          Ok (s\<lparr>values_of := values, tsc0_of := tsc\<rparr>) (print endl w)))"

section \<open>What the opening loop is expected to file\<close>

text \<open>
  Each logical processor, in the order of the topology, with the handle that \<open>open\<close>
  returns for its device at the time it is opened; and the handles of the processors
  whose core id is \<open>k\<close>, in that order.
\<close>

fun handles :: "os \<Rightarrow> io_event list \<Rightarrow> cpu_t list \<Rightarrow> (cpu_t \<times> msr_t) list" where
  "handles sys tr [] = []"
| "handles sys tr (cpu # cpus) =
     (cpu, Msr (sys_open sys tr (msr_path cpu))) #
     handles sys (tr @ [Open (msr_path cpu)]) cpus"

definition handles_of_core :: "os \<Rightarrow> io_event list \<Rightarrow> cpu_t list \<Rightarrow> nat \<Rightarrow> msr_t list" where
  "handles_of_core sys tr cpus k =
     map snd (filter (\<lambda>(cpu, m). core_id cpu = int k) (handles sys tr cpus))"

section \<open>What configure and the tick are expected to write and read\<close>

text \<open>
  The write planned for event \<open>i\<close> on a core with the handles \<open>msrs\<close>: on the handle at
  offset \<open>i / n\<close>, to the event-select register of slot \<open>i % n\<close>, the configuration of the
  \<open>i\<close>-th event. \<open>fits\<close> says that the events \<open>is\<close> have a handle and a register each.
\<close>

definition config_write :: "int \<Rightarrow> msr_t list \<Rightarrow> nat \<Rightarrow> io_event" where
  "config_write n msrs i =
     Pwrite (fd (msrs ! (i div size_t_of n)))
       (as_u64 (port_conf (UOPS_DISPATCHED_PORT ! i)))
       (IA32_PERFEVTSEL ! (i mod size_t_of n))"

text \<open>The read planned for event \<open>i\<close> in a tick: the counter register of its slot.\<close>

definition read_event :: "int \<Rightarrow> msr_t list \<Rightarrow> nat \<Rightarrow> io_event" where
  "read_event n msrs i =
     Pread (fd (msrs ! (i div size_t_of n))) (IA32_PMC ! (i mod size_t_of n))"

definition fits :: "int \<Rightarrow> msr_t list \<Rightarrow> nat list \<Rightarrow> bool" where
  "fits n msrs is \<longleftrightarrow>
     (is \<noteq> [] \<longrightarrow> size_t_of n \<noteq> 0) \<and>
     (\<forall>i \<in> set is. i div size_t_of n < length msrs \<and> i mod size_t_of n < 8)"

definition ports :: "nat list" where
  "ports = [0..<length UOPS_DISPATCHED_PORT]"

definition writes_ok :: "os \<Rightarrow> bool" where
  "writes_ok sys \<longleftrightarrow> (\<forall>tr f v r. sys_pwrite sys tr f v r = 8)"

section \<open>Example machines\<close>

text \<open>
  A system on which every call succeeds: \<open>open\<close> returns a fresh descriptor, \<open>pwrite\<close>
  and \<open>pread\<close> transfer 8 bytes, every counter reads \<open>10000\<close> and the cycle counter
  advances by \<open>1000000\<close> between two reads. A system whose device accepts 4 bytes only.
  A Sandy Bridge part (family 6, model 42, PMC version 3, 4 counters of 48 bits per
  thread) and an Ivy Bridge part (model 58), with a given topology.
\<close>

definition sys_ok :: os where
  "sys_ok =
     \<lparr> sys_open = (\<lambda>tr path. 3 + int (length tr)),
       sys_pwrite = (\<lambda>tr fd val reg. 8),
       sys_pread = (\<lambda>tr fd reg. (8, 10000)),
       hw_rdtsc = (\<lambda>tr. 1000000 * of_nat (length (filter (\<lambda>e. e = Rdtsc) tr))),
       sys_alloc = (\<lambda>tr n. True) \<rparr>"

definition sys_short :: os where
  "sys_short =
     \<lparr> sys_open = (\<lambda>tr path. 3 + int (length tr)),
       sys_pwrite = (\<lambda>tr fd val reg. 4),
       sys_pread = (\<lambda>tr fd reg. (4, 0)),
       hw_rdtsc = (\<lambda>tr. 0),
       sys_alloc = (\<lambda>tr n. True) \<rparr>"

text \<open>
  Exact fractions in the place of doubles, printed as the whole percents, for the
  examples.
\<close>

definition exact_fpu :: "(int \<times> int) fpu" where
  "exact_fpu =
     \<lparr> u64_to_double = (\<lambda>w. (uint w, 1)),
       int_to_double = (\<lambda>i. (i, 1)),
       ddiv = (\<lambda>(a, b) (c, d). (a * d, b * c)),
       dmul = (\<lambda>(a, b) (c, d). (a * c, b * d)),
       printf_6_2f_percent = (\<lambda>(a, b). to_string (a div b) @ ''%'') \<rparr>"

definition thread_on :: "int \<Rightarrow> int \<Rightarrow> cpu_t" where
  "thread_on core i = \<lparr>id_cpu = i, core_id = core, flags = {''fpu'', ''constant_tsc''}\<rparr>"

definition sandy_bridge :: "cpu_t list \<Rightarrow> machine" where
  "sandy_bridge cpus = \<lparr>cpuid_01 = 0x206a7, cpuid_0a = 0x07300403, cpuinfo = Inr cpus\<rparr>"

definition ivy_bridge :: "cpu_t list \<Rightarrow> machine" where
  "ivy_bridge cpus = \<lparr>cpuid_01 = 0x306a9, cpuid_0a = 0x07300403, cpuinfo = Inr cpus\<rparr>"

section \<open>Field extraction\<close>

lemma uint_shift_mask:
  "uint (drop_bit lo (w :: u64) AND mask n) = (uint w div 2 ^ lo) mod 2 ^ n"
proof -
  have "uint (drop_bit lo w AND mask n) = take_bit n (uint (drop_bit lo w))"
    by (simp only: take_bit_eq_mask [symmetric] unsigned_take_bit_eq)
  moreover have "take_bit 64 (uint w) = uint w"
    by (rule take_bit_int_eq_self) (use uint_lt2p [of w] in simp_all)
  then have "uint (drop_bit lo w) = drop_bit lo (uint w)"
    by (simp add: unsigned_drop_bit_eq)
  ultimately show ?thesis
    by (simp add: take_bit_eq_mod drop_bit_eq_div)
qed

lemma field4: "uint (drop_bit lo (w :: u64) AND 0x0f) = bits (lo + 3) lo w"
proof -
  have "(0x0f :: u64) = mask 4" by (simp add: mask_eq_exp_minus_1)
  then show ?thesis by (simp only: uint_shift_mask bits_def) simp
qed

lemma field8: "uint (drop_bit lo (w :: u64) AND 0xff) = bits (lo + 7) lo w"
proof -
  have "(0xff :: u64) = mask 8" by (simp add: mask_eq_exp_minus_1)
  then show ?thesis by (simp only: uint_shift_mask bits_def) simp
qed

lemma field8_0: "uint ((w :: u64) AND 0xff) = bits 7 0 w"
  using field8 [of 0 w] by simp

lemma bits_range: "0 \<le> bits hi lo w \<and> bits hi lo w < 2 ^ (Suc hi - lo)"
  by (simp add: bits_def)

section \<open>The layout of the event-select value\<close>

lemma bits_take_drop: "bits hi lo w = uint (take_bit (Suc hi - lo) (drop_bit lo w))"
  by (simp only: bits_def uint_shift_mask [symmetric] take_bit_eq_mask)

lemma pack_bit:
  "bit (pack ((width, v) # fs)) n \<longleftrightarrow>
     (if n < width then bit v n else n < 64 \<and> bit (pack fs) (n - width))"
  by (auto simp: bit_simps dest: bit_imp_le_length)

lemmas layout_simps = as_u64_def bit_fields_def pack_bit bit_simps

lemma bit_event_select: "n < 8 \<Longrightarrow> bit (as_u64 c) n = bit (event_select c) n"
  by (simp add: layout_simps del: pack.simps(2))

lemma bit_unit_mask: "n < 8 \<Longrightarrow> bit (as_u64 c) (8 + n) = bit (unit_mask c) n"
  by (simp add: layout_simps del: pack.simps(2))

lemma bit_flags:
  "bit (as_u64 c) 16 = user_mode c"
  "bit (as_u64 c) 17 = operating_system_mode c"
  "bit (as_u64 c) 18 = edge_detect c"
  "bit (as_u64 c) 19 = pin_control c"
  "bit (as_u64 c) 20 = interrupt_enable c"
  "bit (as_u64 c) 21 = any_thread c"
  "bit (as_u64 c) 22 = enable_counters c"
  "bit (as_u64 c) 23 = invert_counter_mask c"
  by (simp_all add: layout_simps del: pack.simps(2))

lemma bit_counter_mask: "n < 8 \<Longrightarrow> bit (as_u64 c) (24 + n) = bit (counter_mask c) n"
  by (simp add: layout_simps del: pack.simps(2))

lemma bit_reserved: "n < 32 \<Longrightarrow> bit (as_u64 c) (32 + n) = bit (reserved c) n"
  by (simp add: layout_simps del: pack.simps(2))

lemma slice_eq_ucast:
  fixes w :: u64 and x :: "'a::len word"
  assumes "LENGTH('a) \<le> 64"
    and "\<And>n. n < LENGTH('a) \<Longrightarrow> bit w (lo + n) = bit x n"
  shows "uint (take_bit LENGTH('a) (drop_bit lo w)) = uint x"
proof -
  have "take_bit LENGTH('a) (drop_bit lo w) = ucast x"
  proof (rule bit_word_eqI)
    fix n assume "n < LENGTH(64)"
    show "bit (take_bit LENGTH('a) (drop_bit lo w)) n = bit (ucast x :: u64) n"
    proof (cases "n < LENGTH('a)")
      case True
      with assms show ?thesis by (simp add: bit_simps)
    next
      case False
      then have "\<not> bit x n" by (auto dest: bit_imp_le_length)
      with False show ?thesis by (simp add: bit_simps)
    qed
  qed
  moreover have "(2::int) ^ LENGTH('a) \<le> 2 ^ 64"
    using assms(1) by (intro power_increasing) simp_all
  then have "uint x < 2 ^ 64"
    using uint_lt2p [of x] by linarith
  then have "take_bit 64 (uint x) = uint x"
    by (intro take_bit_int_eq_self) simp_all
  ultimately show ?thesis by (simp add: unsigned_ucast_eq)
qed

lemma field_event_select: "bits 7 0 (as_u64 c) = uint (event_select c)"
  using slice_eq_ucast [where x = "event_select c" and w = "as_u64 c" and lo = 0]
  by (simp add: bits_take_drop bit_event_select)

lemma field_unit_mask: "bits 15 8 (as_u64 c) = uint (unit_mask c)"
  using slice_eq_ucast [where x = "unit_mask c" and w = "as_u64 c" and lo = 8]
  by (simp add: bits_take_drop bit_unit_mask)

lemma field_counter_mask: "bits 31 24 (as_u64 c) = uint (counter_mask c)"
  using slice_eq_ucast [where x = "counter_mask c" and w = "as_u64 c" and lo = 24]
  by (simp add: bits_take_drop bit_counter_mask)

lemma field_reserved: "bits 63 32 (as_u64 c) = uint (reserved c)"
  using slice_eq_ucast [where x = "reserved c" and w = "as_u64 c" and lo = 32]
  by (simp add: bits_take_drop bit_reserved)

lemma sizeof_pmc_config_t: "sizeof_bits (bit_fields c) = 8 * 8"
  by (simp add: sizeof_bits_def bit_fields_def)


lemma ucast_byte:
  assumes "0 \<le> i" "i < 256"
  shows "(ucast (word_of_int i :: 8 word) :: u64) = word_of_int i"
proof -
  have "take_bit 8 i = i" using assms by (intro take_bit_int_eq_self) simp_all
  with assms(1) show ?thesis
    by (simp add: unsigned_of_int)
qed

lemma take_byte:
  assumes "0 \<le> i" "i < 256"
  shows "take_bit 8 (word_of_int i :: u64) = word_of_int i"
proof -
  have "take_bit 8 i = i" using assms by (intro take_bit_int_eq_self) simp_all
  then show ?thesis by (simp add: take_bit_of_int)
qed

lemma port_conf_value:
  assumes "0 \<le> E" "E < 256" "0 \<le> U" "U < 256"
  shows "as_u64 (port_conf \<lparr>event = E, umask = U\<rparr>) =
     word_of_int E OR push_bit 8 (word_of_int U) OR push_bit 16 1 OR push_bit 17 1 OR
     push_bit 21 1 OR push_bit 22 1"
  by (simp add: as_u64_def bit_fields_def port_conf_def conf_zero_def ucast_byte take_byte assms)

section \<open>The configure loops\<close>

lemma length_regs [simp]: "length IA32_PERFEVTSEL = 8" "length IA32_PMC = 8"
  by (simp_all add: IA32_PERFEVTSEL_def IA32_PMC_def)

lemma slot_of_Ok:
  "slot_of n msrs regs i w = Ok x w' \<longleftrightarrow>
     size_t_of n \<noteq> 0 \<and> i div size_t_of n < length msrs \<and> i mod size_t_of n < length regs \<and>
     x = (msrs ! (i div size_t_of n), regs ! (i mod size_t_of n)) \<and> w' = w"
  by (auto simp: slot_of_def Let_def)

lemma wrmsr_Ok:
  "wrmsr sys m reg val w = Ok u w' \<Longrightarrow> w' = emit (Pwrite (fd m) val reg) w"
  by (auto simp: wrmsr_def split: if_splits)

lemma wrmsr_writes_ok:
  "writes_ok sys \<Longrightarrow> wrmsr sys m reg val w = Ok () (emit (Pwrite (fd m) val reg) w)"
  by (simp add: wrmsr_def writes_ok_def)

lemma bind_Ok:
  "bind r k = Ok y w' \<longleftrightarrow> (\<exists>x w1. r = Ok x w1 \<and> k x w1 = Ok y w')"
  by (cases r) simp_all

lemma configure_events_Ok:
  "configure_events sys n msrs is w = Ok u w' \<Longrightarrow>
     w' = w\<lparr>trace := trace w @ map (config_write n msrs) is\<rparr> \<and> fits n msrs is"
proof (induction "is" arbitrary: w)
  case Nil
  then show ?case by (simp add: fits_def)
next
  case (Cons i "is")
  from Cons.prems obtain w1 where
    slot: "size_t_of n \<noteq> 0" "i div size_t_of n < length msrs" "i mod size_t_of n < 8"
    and wr: "wrmsr sys (msrs ! (i div size_t_of n)) (IA32_PERFEVTSEL ! (i mod size_t_of n))
               (as_u64 (port_conf (UOPS_DISPATCHED_PORT ! i))) w = Ok () w1"
    and rest: "configure_events sys n msrs is w1 = Ok u w'"
    by (auto simp: bind_Ok slot_of_Ok)
  from wr have w1: "w1 = emit (config_write n msrs i) w"
    by (simp add: config_write_def wrmsr_Ok)
  from Cons.IH [OF rest] have "w' = w1\<lparr>trace := trace w1 @ map (config_write n msrs) is\<rparr>"
    and "fits n msrs is" by simp_all
  with slot w1 show ?case by (simp add: fits_def emit_def)
qed

lemma configure_events_fits:
  "fits n msrs is \<Longrightarrow> writes_ok sys \<Longrightarrow>
     configure_events sys n msrs is w = Ok () (w\<lparr>trace := trace w @ map (config_write n msrs) is\<rparr>)"
proof (induction "is" arbitrary: w)
  case Nil
  then show ?case by simp
next
  case (Cons i "is")
  from Cons.prems(1) have slot: "size_t_of n \<noteq> 0" "i div size_t_of n < length msrs"
    "i mod size_t_of n < 8" and rest: "fits n msrs is"
    by (auto simp: fits_def)
  from slot have "slot_of n msrs IA32_PERFEVTSEL i w =
      Ok (msrs ! (i div size_t_of n), IA32_PERFEVTSEL ! (i mod size_t_of n)) w"
    by (simp add: slot_of_Ok)
  then show ?case
    using Cons.IH [OF rest Cons.prems(2)] Cons.prems(2)
    by (simp add: wrmsr_writes_ok config_write_def emit_def)
qed


lemma configure_cores_Ok:
  "configure_cores sys n cm cs w = Ok u w' \<Longrightarrow>
     w' = w\<lparr>trace := trace w @ concat (map (\<lambda>c. map (config_write n (cm ! c)) ports) cs)\<rparr> \<and>
     (\<forall>c \<in> set cs. fits n (cm ! c) ports)"
proof (induction cs arbitrary: w)
  case Nil
  then show ?case by simp
next
  case (Cons c cs)
  from Cons.prems obtain v w1 where
    ev: "configure_events sys n (cm ! c) ports w = Ok v w1"
    and rest: "configure_cores sys n cm cs w1 = Ok u w'"
    by (auto simp: bind_Ok ports_def)
  from configure_events_Ok [OF ev]
  have w1: "w1 = w\<lparr>trace := trace w @ map (config_write n (cm ! c)) ports\<rparr>"
    and f: "fits n (cm ! c) ports" by simp_all
  from Cons.IH [OF rest] w1 f show ?case by simp
qed

lemma configure_cores_fits:
  "\<forall>c \<in> set cs. fits n (cm ! c) ports \<Longrightarrow> writes_ok sys \<Longrightarrow>
     configure_cores sys n cm cs w =
       Ok () (w\<lparr>trace := trace w @ concat (map (\<lambda>c. map (config_write n (cm ! c)) ports) cs)\<rparr>)"
proof (induction cs arbitrary: w)
  case Nil
  then show ?case by simp
next
  case (Cons c cs)
  then have "configure_events sys n (cm ! c) ports w =
      Ok () (w\<lparr>trace := trace w @ map (config_write n (cm ! c)) ports\<rparr>)"
    by (simp add: configure_events_fits)
  with Cons show ?case by (simp add: ports_def)
qed

lemma configure_events_overflow:
  "writes_ok sys \<Longrightarrow> size_t_of n \<noteq> 0 \<Longrightarrow> fits n msrs xs \<Longrightarrow>
   length msrs \<le> i div size_t_of n \<Longrightarrow>
     configure_events sys n msrs (xs @ i # ys) w =
       Undefined IndexOutOfRange (w\<lparr>trace := trace w @ map (config_write n msrs) xs\<rparr>)"
proof (induction xs arbitrary: w)
  case Nil
  then show ?case by (simp add: slot_of_def Let_def)
next
  case (Cons x xs)
  from Cons.prems(3) have slot: "x div size_t_of n < length msrs" "x mod size_t_of n < 8"
    and rest: "fits n msrs xs"
    by (auto simp: fits_def)
  from slot Cons.prems(2) have "slot_of n msrs IA32_PERFEVTSEL x w =
      Ok (msrs ! (x div size_t_of n), IA32_PERFEVTSEL ! (x mod size_t_of n)) w"
    by (simp add: slot_of_Ok)
  then show ?case
    using Cons.IH [OF Cons.prems(1,2) rest Cons.prems(4)] Cons.prems(1)
    by (simp add: wrmsr_writes_ok config_write_def emit_def)
qed

lemma ports_overflow:
  assumes "writes_ok sys" and "0 < size_t_of n"
    and "size_t_of n * length msrs < length UOPS_DISPATCHED_PORT"
  shows "configure_events sys n msrs ports w =
       Undefined IndexOutOfRange
         (w\<lparr>trace := trace w @ map (config_write n msrs) [0..<size_t_of n * length msrs]\<rparr>)"
proof -
  let ?m = "size_t_of n * length msrs"
  have six: "length UOPS_DISPATCHED_PORT = 6" by (simp add: UOPS_DISPATCHED_PORT_def)
  have split: "ports = [0..<?m] @ ?m # [Suc ?m..<length UOPS_DISPATCHED_PORT]"
    using assms(3) unfolding ports_def
    by (metis le_add2 le_add_same_cancel2 less_imp_add_positive upt_add_eq_append upt_conv_Cons)
  have "fits n msrs [0..<?m]"
    unfolding fits_def
  proof (intro conjI ballI impI)
    show "size_t_of n \<noteq> 0" using assms(2) by simp
  next
    fix i assume "i \<in> set [0..<?m]"
    then have i: "i < ?m" by simp
    then show "i div size_t_of n < length msrs"
      using assms(2) by (simp add: less_mult_imp_div_less mult.commute)
    have "i mod size_t_of n \<le> i" by simp
    with i assms(3) six show "i mod size_t_of n < 8" by linarith
  qed
  moreover have "length msrs \<le> ?m div size_t_of n"
    using assms(2) by simp
  ultimately have "configure_events sys n msrs
      ([0..<?m] @ ?m # [Suc ?m..<length UOPS_DISPATCHED_PORT]) w =
       Undefined IndexOutOfRange (w\<lparr>trace := trace w @ map (config_write n msrs) [0..<?m]\<rparr>)"
    using assms(1,2) by (intro configure_events_overflow) simp_all
  then show ?thesis by (simp only: split [symmetric])
qed

section \<open>Cores and handles\<close>

lemma fits_ports:
  "(\<forall>c \<in> set [0..<length cm]. fits n (cm ! c) ports) \<longleftrightarrow>
   (\<forall>c < length cm. size_t_of n \<noteq> 0 \<and>
      (\<forall>i < length UOPS_DISPATCHED_PORT. i div size_t_of n < length (cm ! c)))"
proof -
  have six: "length UOPS_DISPATCHED_PORT = 6" by (simp add: UOPS_DISPATCHED_PORT_def)
  have "i mod size_t_of n < 8" if "i < 6" for i
  proof -
    have "i mod size_t_of n \<le> i" by simp
    with that show ?thesis by linarith
  qed
  then show ?thesis
    by (auto simp: fits_def ports_def six)
qed

lemma port_conf_fields:
  "port_conf p =
     \<lparr> event_select = word_of_int (event p), unit_mask = word_of_int (umask p),
       user_mode = True, operating_system_mode = True, edge_detect = False,
       pin_control = False, interrupt_enable = False, any_thread = True,
       enable_counters = True, invert_counter_mask = False, counter_mask = 0,
       reserved = 0 \<rparr>"
  by (simp add: port_conf_def conf_zero_def)

lemma size_t_of_nat: "0 \<le> n \<Longrightarrow> n < 2 ^ 64 \<Longrightarrow> size_t_of n = nat n"
  by (simp add: size_t_of_def)

lemma foldl_max_ge:
  "a \<le> foldl (\<lambda>a b. max a (core_id b)) a cpus \<and>
   (\<forall>c \<in> set cpus. core_id c \<le> foldl (\<lambda>a b. max a (core_id b)) a cpus)"
proof (induction cpus arbitrary: a)
  case Nil
  then show ?case by simp
next
  case (Cons c cpus)
  from Cons.IH [of "max a (core_id c)"] show ?case by auto
qed

lemma foldl_max_mem:
  "foldl (\<lambda>a b. max a (core_id b)) a cpus \<in> insert a (core_id ` set cpus)"
proof (induction cpus arbitrary: a)
  case Nil
  then show ?case by simp
next
  case (Cons c cpus)
  from Cons.IH [of "max a (core_id c)"] show ?case by (auto simp: max_def split: if_splits)
qed

lemma num_cores_of_Some:
  assumes "num_cores_of cpus = Some N"
  shows "1 \<le> N" and "N \<le> INT_MAX" and "\<forall>c \<in> set cpus. core_id c < N"
  using assms foldl_max_ge [of 0 cpus]
  by (auto simp: num_cores_of_def Let_def split: if_splits)

lemma num_cores_of_Max:
  assumes "cpus \<noteq> []" and "\<forall>c \<in> set cpus. 0 \<le> core_id c \<and> core_id c < INT_MAX"
  shows "num_cores_of cpus = Some (Max (core_id ` set cpus) + 1)"
proof -
  let ?m = "foldl (\<lambda>a b. max a (core_id b)) 0 cpus"
  have ub: "\<forall>c \<in> set cpus. core_id c \<le> ?m" and nonneg: "0 \<le> ?m"
    using foldl_max_ge [of 0 cpus] by simp_all
  have mem: "?m \<in> core_id ` set cpus"
  proof (cases "?m = 0")
    case True
    from assms(1) obtain c where c: "c \<in> set cpus" by (cases cpus) auto
    with ub assms(2) True have "core_id c = 0" by force
    with c True show ?thesis by force
  next
    case False
    with foldl_max_mem [of 0 cpus] show ?thesis by simp
  qed
  then have "Max (core_id ` set cpus) = ?m"
    using ub by (intro Max_eqI) auto
  moreover from mem assms(2) have "?m < INT_MAX" by auto
  ultimately show ?thesis by (simp add: num_cores_of_def)
qed

lemma handles_of_core_Cons:
  "handles_of_core sys tr (cpu # cpus) k =
     (if core_id cpu = int k then [Msr (sys_open sys tr (msr_path cpu))] else []) @
     handles_of_core sys (tr @ [Open (msr_path cpu)]) cpus k"
  by (simp add: handles_of_core_def)

lemma length_handles_of_core:
  "length (handles_of_core sys tr cpus k) = length (filter (\<lambda>c. core_id c = int k) cpus)"
  by (induction cpus arbitrary: tr) (simp_all add: handles_of_core_Cons, simp add: handles_of_core_def)

lemma open_msrs_Ok:
  assumes "\<forall>c \<in> set cpus. 0 \<le> core_id c \<and> core_id c < int (length cm0)"
  shows "open_msrs sys cpus cm0 w =
     Ok (map (\<lambda>k. cm0 ! k @ handles_of_core sys (trace w) cpus k) [0..<length cm0])
        (w\<lparr>trace := trace w @ map (\<lambda>c. Open (msr_path c)) cpus\<rparr>)"
  using assms
proof (induction cpus arbitrary: cm0 w)
  case Nil
  then show ?case by (simp add: handles_of_core_def map_nth)
next
  case (Cons c cpus)
  let ?k = "nat (core_id c)"
  let ?m = "Msr (sys_open sys (trace w) (msr_path c))"
  let ?cm1 = "cm0[?k := cm0 ! ?k @ [?m]]"
  let ?w1 = "emit (Open (msr_path c)) w"
  from Cons.prems have c: "0 \<le> core_id c" "core_id c < int (length cm0)"
    and rest: "\<forall>c \<in> set cpus. 0 \<le> core_id c \<and> core_id c < int (length ?cm1)"
    by simp_all
  have step: "open_msrs sys (c # cpus) cm0 w = open_msrs sys cpus ?cm1 ?w1"
    using c by (simp add: msr_open_def)
  have "map (\<lambda>k. ?cm1 ! k @ handles_of_core sys (trace ?w1) cpus k) [0..<length ?cm1] =
        map (\<lambda>k. cm0 ! k @ handles_of_core sys (trace w) (c # cpus) k) [0..<length cm0]"
  proof (rule map_cong)
    show "[0..<length ?cm1] = [0..<length cm0]" by simp
  next
    fix k assume "k \<in> set [0..<length cm0]"
    then have k: "k < length cm0" by simp
    show "?cm1 ! k @ handles_of_core sys (trace ?w1) cpus k =
          cm0 ! k @ handles_of_core sys (trace w) (c # cpus) k"
    proof (cases "core_id c = int k")
      case True
      then have "?k = k" by simp
      with k True show ?thesis by (simp add: handles_of_core_Cons emit_def)
    next
      case False
      then have "?k \<noteq> k" using c by auto
      with k False show ?thesis by (simp add: handles_of_core_Cons emit_def)
    qed
  qed
  with Cons.IH [OF rest, of ?w1] step show ?case by (simp add: emit_def)
qed

lemma open_cores_Ok:
  assumes "num_cores_of cpus = Some N"
    and "\<forall>c \<in> set cpus. 0 \<le> core_id c"
    and "sys_alloc sys (trace w) (nat N)"
  shows "open_cores sys cpus w =
     Ok (map (handles_of_core sys (trace w) cpus) [0..<nat N])
        (w\<lparr>trace := trace w @ map (\<lambda>c. Open (msr_path c)) cpus\<rparr>)"
proof -
  from num_cores_of_Some [OF assms(1)] assms(2)
  have "\<forall>c \<in> set cpus. 0 \<le> core_id c \<and>
      core_id c < int (length (replicate (nat N) ([] :: msr_t list)))"
    by auto
  from open_msrs_Ok [OF this, of sys w] assms(1,3) show ?thesis
    by (simp add: open_cores_def)
qed

lemma configure_first_core:
  assumes "cm \<noteq> []" and "configure_events sys n (cm ! 0) ports w = Undefined u w'"
  shows "configure sys n cm w = Undefined u w'"
proof -
  from assms(1) have "[0..<length cm] = 0 # [1..<length cm]"
    by (simp add: upt_conv_Cons)
  then have "configure sys n cm w = configure_cores sys n cm (0 # [1..<length cm]) w"
    by (simp only: configure_def)
  with assms(2) show ?thesis by (simp add: ports_def)
qed

lemma start_sampler_overflow:
  assumes wr: "writes_ok sys"
    and ids: "\<forall>c \<in> set cpus. 0 \<le> core_id c"
    and num: "num_cores_of cpus = Some N"
    and alloc: "sys_alloc sys (trace w) (nat N)"
    and n: "0 < size_t_of (num_pmc_per_thread info)"
    and few: "size_t_of (num_pmc_per_thread info) * length (filter (\<lambda>c. core_id c = 0) cpus)
                < length UOPS_DISPATCHED_PORT"
  shows "start_sampler sys info cpus w =
     Undefined IndexOutOfRange
       (w\<lparr>trace := trace w @ map (\<lambda>c. Open (msr_path c)) cpus @
            map (config_write (num_pmc_per_thread info) (handles_of_core sys (trace w) cpus 0))
              [0..<size_t_of (num_pmc_per_thread info) *
                   length (filter (\<lambda>c. core_id c = 0) cpus)]\<rparr>)"
proof -
  let ?n = "num_pmc_per_thread info"
  let ?cm = "map (handles_of_core sys (trace w) cpus) [0..<nat N]"
  let ?w1 = "w\<lparr>trace := trace w @ map (\<lambda>c. Open (msr_path c)) cpus\<rparr>"
  let ?h0 = "handles_of_core sys (trace w) cpus 0"
  have N: "0 < nat N" using num_cores_of_Some(1) [OF num] by simp
  have opened: "open_cores sys cpus w = Ok ?cm ?w1"
    by (rule open_cores_Ok [OF num ids alloc])
  have cm0: "?cm ! 0 = ?h0" using N by simp
  have t: "length ?h0 = length (filter (\<lambda>c. core_id c = 0) cpus)"
    using length_handles_of_core [of sys "trace w" cpus 0] by simp
  let ?w' = "?w1\<lparr>trace := trace ?w1 @ map (config_write ?n ?h0) [0..<size_t_of ?n * length ?h0]\<rparr>"
  have ev: "configure_events sys ?n ?h0 ports ?w1 = Undefined IndexOutOfRange ?w'"
    using wr n few t by (intro ports_overflow) simp_all
  have "?cm \<noteq> []" using N by simp
  from configure_first_core [OF this] ev cm0
  have "configure sys ?n ?cm ?w1 = Undefined IndexOutOfRange ?w'"
    by (simp del: nth_map_upt map_eq_conv upt_eq_Nil_conv)
  with opened have "start_sampler sys info cpus w = Undefined IndexOutOfRange ?w'"
    by (simp add: start_sampler_def)
  then show ?thesis by (simp add: t)
qed

section \<open>The tick loops\<close>

lemma rdmsr_full:
  "sys_pread sys (trace w) (fd m) reg = (8, val) \<Longrightarrow>
     rdmsr sys m reg w = Ok val (emit (Pread (fd m) reg) w)"
  by (simp add: rdmsr_def)

lemma tick_events_runs:
  assumes "fits n msrs is"
    and "distinct is"
    and "\<forall>i \<in> set is. i < length vals"
    and "\<forall>j < length is.
           sys_pread sys (trace w @ map (read_event n msrs) (take j is))
             (fd (msrs ! (is ! j div size_t_of n))) (IA32_PMC ! (is ! j mod size_t_of n))
           = (8, cur (is ! j))"
  shows "tick_events sys fp n msrs hz is vals w =
     Ok (map (\<lambda>i. if i \<in> set is then cur i else vals ! i) [0..<length vals])
        (w\<lparr>trace := trace w @ map (read_event n msrs) is,
           stderr := stderr w @
             concat (map (\<lambda>i. printf_6_2f_percent fp (utilization fp (cur i) (vals ! i) hz)) is)\<rparr>)"
  using assms
proof (induction "is" arbitrary: w vals)
  case Nil
  then show ?case by (simp add: map_nth)
next
  case (Cons i "is")
  let ?k = "size_t_of n"
  let ?w1 = "print (printf_6_2f_percent fp (utilization fp (cur i) (vals ! i) hz))
               (emit (read_event n msrs i) w)"
  let ?vals1 = "vals[i := cur i]"
  from Cons.prems(1) have slot: "?k \<noteq> 0" "i div ?k < length msrs" "i mod ?k < 8"
    and fits': "fits n msrs is"
    by (auto simp: fits_def)
  from Cons.prems(2) have notin: "i \<notin> set is" and dist': "distinct is" by simp_all
  from Cons.prems(3) have i: "i < length vals" and inb': "\<forall>i \<in> set is. i < length ?vals1"
    by simp_all
  from Cons.prems(4) [rule_format, of 0]
  have read0: "sys_pread sys (trace w) (fd (msrs ! (i div ?k))) (IA32_PMC ! (i mod ?k)) = (8, cur i)"
    by simp
  have reads': "\<forall>j < length is.
           sys_pread sys (trace ?w1 @ map (read_event n msrs) (take j is))
             (fd (msrs ! (is ! j div ?k))) (IA32_PMC ! (is ! j mod ?k))
           = (8, cur (is ! j))"
  proof (intro allI impI)
    fix j assume "j < length is"
    then have "Suc j < length (i # is)" by simp
    from Cons.prems(4) [rule_format, OF this]
    show "sys_pread sys (trace ?w1 @ map (read_event n msrs) (take j is))
             (fd (msrs ! (is ! j div ?k))) (IA32_PMC ! (is ! j mod ?k))
           = (8, cur (is ! j))"
      by (simp add: print_def emit_def)
  qed
  have step: "tick_events sys fp n msrs hz (i # is) vals w =
      tick_events sys fp n msrs hz is ?vals1 ?w1"
    using slot i rdmsr_full [OF read0]
    by (simp add: slot_of_def Let_def read_event_def)
  have vals_eq: "map (\<lambda>i'. if i' \<in> set is then cur i' else ?vals1 ! i') [0..<length ?vals1] =
      map (\<lambda>i'. if i' \<in> set (i # is) then cur i' else vals ! i') [0..<length vals]"
    using notin i by (auto simp: nth_list_update)
  have out_eq: "map (\<lambda>i'. printf_6_2f_percent fp (utilization fp (cur i') (?vals1 ! i') hz)) is =
      map (\<lambda>i'. printf_6_2f_percent fp (utilization fp (cur i') (vals ! i') hz)) is"
  proof (rule map_cong [OF refl])
    fix x assume "x \<in> set is"
    with notin have "x \<noteq> i" by auto
    then show "printf_6_2f_percent fp (utilization fp (cur x) (?vals1 ! x) hz) =
        printf_6_2f_percent fp (utilization fp (cur x) (vals ! x) hz)"
      by simp
  qed
  from Cons.IH [OF fits' dist' inb' reads'] step show ?case
    by (simp only: vals_eq out_eq) (simp add: print_def emit_def)
qed


lemma ports_facts:
  "distinct ports" "set ports = {0..<length UOPS_DISPATCHED_PORT}"
  "length ports = length UOPS_DISPATCHED_PORT"
  by (simp_all add: ports_def)

lemma tick_events_ports:
  assumes "fits n msrs ports"
    and "length vals = length UOPS_DISPATCHED_PORT"
    and "\<forall>j < length ports.
           sys_pread sys (trace w @ map (read_event n msrs) (take j ports))
             (fd (msrs ! (ports ! j div size_t_of n))) (IA32_PMC ! (ports ! j mod size_t_of n))
           = (8, cur (ports ! j))"
  shows "tick_events sys fp n msrs hz ports vals w =
     Ok (map cur ports)
        (w\<lparr>trace := trace w @ map (read_event n msrs) ports,
           stderr := stderr w @
             concat (map (\<lambda>i. printf_6_2f_percent fp (utilization fp (cur i) (vals ! i) hz)) ports)\<rparr>)"
proof -
  have "\<forall>i \<in> set ports. i < length vals"
    using assms(2) by (simp add: ports_def)
  from tick_events_runs [OF assms(1) ports_facts(1) this assms(3), of fp hz]
  have "tick_events sys fp n msrs hz ports vals w =
     Ok (map (\<lambda>i. if i \<in> set ports then cur i else vals ! i) [0..<length vals])
        (w\<lparr>trace := trace w @ map (read_event n msrs) ports,
           stderr := stderr w @
             concat (map (\<lambda>i. printf_6_2f_percent fp (utilization fp (cur i) (vals ! i) hz)) ports)\<rparr>)" .
  moreover have "map (\<lambda>i. if i \<in> set ports then cur i else vals ! i) [0..<length vals] =
      map cur ports"
    using assms(2) by (simp add: ports_def)
  ultimately show ?thesis by simp
qed

lemma tick_cores_runs:
  assumes "\<forall>c \<in> set cs. c < length cm \<and> c < length values \<and> fits n (cm ! c) ports \<and>
             length (values ! c) = length UOPS_DISPATCHED_PORT"
    and "distinct cs"
    and "\<forall>p < length cs. \<forall>j < length ports.
           sys_pread sys
             (trace w @ concat (map (\<lambda>c. map (read_event n (cm ! c)) ports) (take p cs)) @
                map (read_event n (cm ! (cs ! p))) (take j ports))
             (fd (cm ! (cs ! p) ! (ports ! j div size_t_of n)))
             (IA32_PMC ! (ports ! j mod size_t_of n))
           = (8, cur (cs ! p) (ports ! j))"
  shows "tick_cores sys fp n cm hz cs values w =
     Ok (map (\<lambda>c. if c \<in> set cs then map (cur c) ports else values ! c) [0..<length values])
        (w\<lparr>trace := trace w @ concat (map (\<lambda>c. map (read_event n (cm ! c)) ports) cs),
           stderr := stderr w @
             concat (map (\<lambda>c. ''['' @
               concat (map (\<lambda>i. printf_6_2f_percent fp
                                    (utilization fp (cur c i) (values ! c ! i) hz)) ports) @
               ''] '') cs)\<rparr>)"
  using assms
proof (induction cs arbitrary: w "values")
  case Nil
  then show ?case by (simp add: map_nth)
next
  case (Cons c cs)
  let ?reads = "map (read_event n (cm ! c)) ports"
  let ?outs = "concat (map (\<lambda>i. printf_6_2f_percent fp
                                    (utilization fp (cur c i) (values ! c ! i) hz)) ports)"
  let ?w0 = "print ''['' w"
  let ?w1 = "?w0\<lparr>trace := trace ?w0 @ ?reads, stderr := stderr ?w0 @ ?outs\<rparr>"
  let ?w2 = "print ''] '' ?w1"
  let ?values1 = "values[c := map (cur c) ports]"
  from Cons.prems(1) have c: "c < length cm" "c < length values" "fits n (cm ! c) ports"
    "length (values ! c) = length UOPS_DISPATCHED_PORT"
    by simp_all
  from Cons.prems(2) have notin: "c \<notin> set cs" and dist': "distinct cs" by simp_all
  have rest: "\<forall>c' \<in> set cs. c' < length cm \<and> c' < length ?values1 \<and> fits n (cm ! c') ports \<and>
             length (?values1 ! c') = length UOPS_DISPATCHED_PORT"
    using Cons.prems(1) notin by (auto simp: nth_list_update)
  have reads0: "\<forall>j < length ports.
           sys_pread sys (trace ?w0 @ map (read_event n (cm ! c)) (take j ports))
             (fd (cm ! c ! (ports ! j div size_t_of n))) (IA32_PMC ! (ports ! j mod size_t_of n))
           = (8, cur c (ports ! j))"
    using Cons.prems(3) [rule_format, of 0] by (simp add: print_def)
  have ev: "tick_events sys fp n (cm ! c) hz ports (values ! c) ?w0 = Ok (map (cur c) ports) ?w1"
    by (rule tick_events_ports [OF c(3,4) reads0])
  have reads': "\<forall>p < length cs. \<forall>j < length ports.
           sys_pread sys
             (trace ?w2 @ concat (map (\<lambda>c. map (read_event n (cm ! c)) ports) (take p cs)) @
                map (read_event n (cm ! (cs ! p))) (take j ports))
             (fd (cm ! (cs ! p) ! (ports ! j div size_t_of n)))
             (IA32_PMC ! (ports ! j mod size_t_of n))
           = (8, cur (cs ! p) (ports ! j))"
  proof (intro allI impI)
    fix p j assume "p < length cs" and j: "j < length ports"
    then have "Suc p < length (c # cs)" by simp
    from Cons.prems(3) [rule_format, OF this j]
    show "sys_pread sys
             (trace ?w2 @ concat (map (\<lambda>c. map (read_event n (cm ! c)) ports) (take p cs)) @
                map (read_event n (cm ! (cs ! p))) (take j ports))
             (fd (cm ! (cs ! p) ! (ports ! j div size_t_of n)))
             (IA32_PMC ! (ports ! j mod size_t_of n))
           = (8, cur (cs ! p) (ports ! j))"
      by (simp add: print_def)
  qed
  have step: "tick_cores sys fp n cm hz (c # cs) values w =
      tick_cores sys fp n cm hz cs ?values1 ?w2"
    using c(1,2) ev by (simp add: ports_def)
  have vals_eq: "map (\<lambda>c'. if c' \<in> set cs then map (cur c') ports else ?values1 ! c')
        [0..<length ?values1] =
      map (\<lambda>c'. if c' \<in> set (c # cs) then map (cur c') ports else values ! c')
        [0..<length values]"
    using notin c(2) by (auto simp: nth_list_update)
  have out_eq: "map (\<lambda>c'. ''['' @
               concat (map (\<lambda>i. printf_6_2f_percent fp
                                    (utilization fp (cur c' i) (?values1 ! c' ! i) hz)) ports) @
               ''] '') cs =
      map (\<lambda>c'. ''['' @
               concat (map (\<lambda>i. printf_6_2f_percent fp
                                    (utilization fp (cur c' i) (values ! c' ! i) hz)) ports) @
               ''] '') cs"
  proof (rule map_cong [OF refl])
    fix x assume "x \<in> set cs"
    with notin have "x \<noteq> c" by auto
    then show "''['' @ concat (map (\<lambda>i. printf_6_2f_percent fp
                                    (utilization fp (cur x i) (?values1 ! x ! i) hz)) ports) @ ''] '' =
        ''['' @ concat (map (\<lambda>i. printf_6_2f_percent fp
                                    (utilization fp (cur x i) (values ! x ! i) hz)) ports) @ ''] ''"
      by simp
  qed
  from Cons.IH [OF rest dist' reads'] step show ?case
    by (simp only: vals_eq out_eq) (simp add: print_def)
qed

lemma delta_mod: "word_of_int ((uint a - uint b) mod 2 ^ 64) = (a - b :: u64)"
proof -
  have "uint (a - b) = (uint a - uint b) mod 2 ^ 64"
    by (simp add: uint_word_ariths)
  then show ?thesis by (metis word_of_int_uint)
qed

lemma delta_wrapped:
  assumes "(a :: u64) < b"
  shows "a - b = word_of_int (uint a + 2 ^ 64 - uint b)"
    and "0 < uint a + 2 ^ 64 - uint b" and "uint a + 2 ^ 64 - uint b < 2 ^ 64"
proof -
  have lt: "uint a < uint b" using assms by (simp add: word_less_def)
  have a: "0 \<le> uint a" by simp
  have b: "uint b < 2 ^ 64" using uint_lt2p [of b] by simp
  show "0 < uint a + 2 ^ 64 - uint b" using b a by linarith
  show "uint a + 2 ^ 64 - uint b < 2 ^ 64" using lt by linarith
  have "a - b = word_of_int (uint a - uint b)" by simp
  also have "\<dots> = word_of_int (uint a - uint b + 2 ^ 64)"
    by (simp add: word_of_int_2p_len [where ?'a = 64, simplified] wi_hom_add [symmetric] del: word_of_int_uint)
  finally show "a - b = word_of_int (uint a + 2 ^ 64 - uint b)" by (simp add: algebra_simps)
qed

lemma tick_runs:
  assumes "size_t_of n \<noteq> 0"
    and "\<forall>c < length cm. \<forall>i < length UOPS_DISPATCHED_PORT. i div size_t_of n < length (cm ! c)"
    and "length previous = length cm"
    and "\<forall>c < length cm. length (previous ! c) = length UOPS_DISPATCHED_PORT"
    and "\<forall>c < length cm. \<forall>i < length UOPS_DISPATCHED_PORT.
           sys_pread sys
             (trace w @ [Usleep (1000 * 1000), Rdtsc] @
                concat (map (\<lambda>c'. map (read_event n (cm ! c')) ports) [0..<c]) @
                map (read_event n (cm ! c)) [0..<i])
             (fd (cm ! c ! (i div size_t_of n))) (IA32_PMC ! (i mod size_t_of n))
           = (8, current c i)"
  shows "tick sys fp n \<lparr>core_msrs_of = cm, values_of = previous, tsc0_of = tsc0\<rparr> w =
     Ok \<lparr> core_msrs_of = cm,
          values_of = map (\<lambda>c. map (current c) ports) [0..<length cm],
          tsc0_of = hw_rdtsc sys (trace w @ [Usleep (1000 * 1000)]) \<rparr>
        \<lparr> trace = trace w @ [Usleep (1000 * 1000), Rdtsc] @
                  concat (map (\<lambda>c. map (read_event n (cm ! c)) ports) [0..<length cm]),
          stderr = stderr w @
            concat (map (\<lambda>c. ''['' @
              concat (map (\<lambda>i. printf_6_2f_percent fp
                  (utilization fp (current c i) (previous ! c ! i)
                     (hw_rdtsc sys (trace w @ [Usleep (1000 * 1000)]) - tsc0))) ports) @
              ''] '') [0..<length cm]) @ endl \<rparr>"
proof -
  let ?tsc = "hw_rdtsc sys (trace w @ [Usleep (1000 * 1000)])"
  let ?w1 = "w\<lparr>trace := trace w @ [Usleep (1000 * 1000), Rdtsc]\<rparr>"
  have six: "length UOPS_DISPATCHED_PORT = 6" by (simp add: UOPS_DISPATCHED_PORT_def)
  have fit: "fits n (cm ! c) ports" if "c < length cm" for c
    unfolding fits_def
  proof (intro conjI ballI impI)
    show "size_t_of n \<noteq> 0" by (rule assms(1))
  next
    fix i assume "i \<in> set ports"
    then have i: "i < length UOPS_DISPATCHED_PORT" by (simp add: ports_def)
    with assms(2) that show "i div size_t_of n < length (cm ! c)" by simp
    have "i mod size_t_of n \<le> i" by simp
    with i six show "i mod size_t_of n < 8" by linarith
  qed
  have A: "\<forall>c \<in> set [0..<length cm]. c < length cm \<and> c < length previous \<and>
      fits n (cm ! c) ports \<and> length (previous ! c) = length UOPS_DISPATCHED_PORT"
    using assms(3,4) fit by simp
  have R: "\<forall>p < length [0..<length cm]. \<forall>j < length ports.
           sys_pread sys
             (trace ?w1 @ concat (map (\<lambda>c. map (read_event n (cm ! c)) ports)
                                    (take p [0..<length cm])) @
                map (read_event n (cm ! ([0..<length cm] ! p))) (take j ports))
             (fd (cm ! ([0..<length cm] ! p) ! (ports ! j div size_t_of n)))
             (IA32_PMC ! (ports ! j mod size_t_of n))
           = (8, current ([0..<length cm] ! p) (ports ! j))"
  proof (intro allI impI)
    fix p j assume p: "p < length [0..<length cm]" and j: "j < length ports"
    then have p': "p < length cm" and j': "j < length UOPS_DISPATCHED_PORT"
      by (simp_all add: ports_def)
    have tp: "take p [0..<length cm] = [0..<p]" using p' by (simp add: take_upt)
    have tj: "take j ports = [0..<j]" using j' by (simp add: ports_def take_upt)
    have np: "[0..<length cm] ! p = p" using p' by simp
    have nj: "ports ! j = j" using j' by (simp add: ports_def)
    from assms(5) [rule_format, OF p' j']
    show "sys_pread sys
             (trace ?w1 @ concat (map (\<lambda>c. map (read_event n (cm ! c)) ports)
                                    (take p [0..<length cm])) @
                map (read_event n (cm ! ([0..<length cm] ! p))) (take j ports))
             (fd (cm ! ([0..<length cm] ! p) ! (ports ! j div size_t_of n)))
             (IA32_PMC ! (ports ! j mod size_t_of n))
           = (8, current ([0..<length cm] ! p) (ports ! j))"
      by (simp only: tp tj np nj) simp
  qed
  have vals: "map (\<lambda>c. if c \<in> set [0..<length cm] then map (current c) ports else previous ! c)
        [0..<length previous] = map (\<lambda>c. map (current c) ports) [0..<length cm]"
    using assms(3) by simp
  from tick_cores_runs [OF A distinct_upt R, of fp "?tsc - tsc0"]
  have "tick_cores sys fp n cm (?tsc - tsc0) [0..<length cm] previous ?w1 =
     Ok (map (\<lambda>c. map (current c) ports) [0..<length cm])
        (?w1\<lparr>trace := trace ?w1 @ concat (map (\<lambda>c. map (read_event n (cm ! c)) ports) [0..<length cm]),
           stderr := stderr ?w1 @
             concat (map (\<lambda>c. ''['' @
               concat (map (\<lambda>i. printf_6_2f_percent fp
                                    (utilization fp (current c i) (previous ! c ! i) (?tsc - tsc0))) ports) @
               ''] '') [0..<length cm])\<rparr>)"
    by (simp only: vals)
  then show ?thesis
    by (simp add: tick_def rdtsc_def emit_def print_def Let_def)
qed

section \<open>The capability prober\<close>

text \<open>
  Claim C4. \<open>pmcinfo\<close> decodes the value of identification leaf \<open>0x0a\<close> as
  version = bits [7:0], counters per thread = bits [15:8] and counter bit width =
  bits [23:16]; on \<open>0xa10305\<close> these are 5, 3 and \<open>0xa1\<close>.
\<close>

theorem pmcinfo_slices:
  "version_id (pmcinfo rax) = bits 7 0 rax \<and>
   num_pmc_per_thread (pmcinfo rax) = bits 15 8 rax \<and>
   pmc_bitwidth (pmcinfo rax) = bits 23 16 rax \<and>
   pmcinfo 0xa10305 = \<lparr>version_id = 0x05, num_pmc_per_thread = 0x03, pmc_bitwidth = 0xa1\<rparr>"
  using field8 [of 8 rax] field8 [of 16 rax] field8_0 [of rax]
  by (simp add: pmcinfo_def)

text \<open>
  Claim C3. The reported family is the base family field, bits [11:8] of leaf 1, when
  that field is not \<open>0x0F\<close>, and the base field plus the extended family field, bits
  [27:20], when it is \<open>0x0F\<close>. \<open>cpu_family\<close> is a function of the value the
  instruction returns and of nothing else.
\<close>

theorem cpu_family_extended:
  "cpu_family rax =
     (if bits 11 8 rax = 0x0F then bits 11 8 rax + bits 27 20 rax else bits 11 8 rax)"
  using field4 [of 8 rax] field8 [of 20 rax]
  by (simp add: cpu_family_def Let_def)

theorem cpu_family_extended_witness:
  "cpu_family 0x206a7 = 6 \<and> cpu_family 0x00800f11 = 0x0F + 8"
  using cpu_family_extended [of "0x206a7"] cpu_family_extended [of "0x00800f11"]
  by (simp add: bits_def)

text \<open>
  Claim C9. The reported model is \<open>(extended_model_id << 4) + model_id\<close>, with the
  model id in bits [7:4] and the extended model id in bits [19:16], when the base family
  field is \<open>0x06\<close> or \<open>0x0F\<close>, and the 4-bit model id otherwise; it is an 8-bit value.
\<close>

theorem cpu_model_extended:
  "cpu_model rax =
     (if bits 11 8 rax = 0x06 \<or> bits 11 8 rax = 0x0F
      then bits 19 16 rax * 2 ^ 4 + bits 7 4 rax
      else bits 7 4 rax) \<and>
   0 \<le> cpu_model rax \<and> cpu_model rax < 2 ^ 8"
proof -
  have eq: "cpu_model rax =
     (if bits 11 8 rax = 0x06 \<or> bits 11 8 rax = 0x0F
      then bits 19 16 rax * 2 ^ 4 + bits 7 4 rax
      else bits 7 4 rax)"
    using field4 [of 8 rax] field4 [of 4 rax] field4 [of 16 rax]
    by (simp add: cpu_model_def Let_def push_bit_eq_mult)
  have "0 \<le> bits 19 16 rax" "bits 19 16 rax < 16" "0 \<le> bits 7 4 rax" "bits 7 4 rax < 16"
    using bits_range [of 19 16 rax] bits_range [of 7 4 rax] by simp_all
  with eq show ?thesis by auto
qed

theorem cpu_model_extended_witness:
  "cpu_model 0x206a7 = 42 \<and> cpu_model 0x00000f4a = 4 + 0 \<and> cpu_model 0x00020543 = 4"
  using cpu_model_extended [of "0x206a7"] cpu_model_extended [of "0x00000f4a"]
    cpu_model_extended [of "0x00020543"]
  by (simp add: bits_def)

section \<open>Evaluating the example machines\<close>

lemma sandy_ids:
  "cpu_family (cpuid_01 (sandy_bridge cpus)) = 6"
  "cpu_model (cpuid_01 (sandy_bridge cpus)) = 42"
  "pmcinfo (cpuid_0a (sandy_bridge cpus)) = \<lparr>version_id = 3, num_pmc_per_thread = 4, pmc_bitwidth = 48\<rparr>"
  by (simp_all add: sandy_bridge_def cpu_family_def cpu_model_def pmcinfo_def)

lemma ivy_ids:
  "cpu_family (cpuid_01 (ivy_bridge cpus)) = 6"
  "cpu_model (cpuid_01 (ivy_bridge cpus)) = 58"
  "pmcinfo (cpuid_0a (ivy_bridge cpus)) = \<lparr>version_id = 3, num_pmc_per_thread = 4, pmc_bitwidth = 48\<rparr>"
  by (simp_all add: ivy_bridge_def cpu_family_def cpu_model_def pmcinfo_def)

lemma to_string_small:
  "to_string 3 = ''3''" "to_string 4 = ''4''" "to_string 6 = ''6''" "to_string 0 = ''0''" "to_string 1 = ''1''"
  "to_string 42 = ''42''" "to_string 48 = ''48''" "to_string 58 = ''58''"
  by (simp_all add: to_string_def digits.simps digit_char_def)

lemma to_string_small2: "to_string 2 = ''2''"
  by (simp add: to_string_def digits.simps digit_char_def)

lemma writes_ok_sys_ok: "writes_ok sys_ok"
  by (simp add: writes_ok_def sys_ok_def)

lemma ports_eval: "[0..<length UOPS_DISPATCHED_PORT] = [0, 1, 2, 3, 4, 5]"
  by (simp add: UOPS_DISPATCHED_PORT_def upt_rec)

lemma port_values:
  "as_u64 (port_conf (UOPS_DISPATCHED_PORT ! 0)) = 0x6301a1"
  "as_u64 (port_conf (UOPS_DISPATCHED_PORT ! 1)) = 0x6302a1"
  "as_u64 (port_conf (UOPS_DISPATCHED_PORT ! Suc 0)) = 0x6302a1"
  "as_u64 (port_conf (UOPS_DISPATCHED_PORT ! 2)) = 0x630ca1"
  "as_u64 (port_conf (UOPS_DISPATCHED_PORT ! 3)) = 0x6330a1"
  "as_u64 (port_conf (UOPS_DISPATCHED_PORT ! 4)) = 0x6340a1"
  "as_u64 (port_conf (UOPS_DISPATCHED_PORT ! 5)) = 0x6380a1"
  by (simp_all add: as_u64_def bit_fields_def port_conf_def conf_zero_def UOPS_DISPATCHED_PORT_def)

section \<open>The event-select register\<close>

text \<open>
  Claim C10. The configuration value occupies 8 bytes, with the event select in bits
  [7:0], the unit mask in bits [15:8], user mode in bit 16, kernel mode in bit 17, edge
  detect in bit 18, pin control in bit 19, interrupt enable in bit 20, any thread in bit
  21, the enable bit in bit 22, invert in bit 23, the counter mask in bits [31:24] and
  the reserved field in bits [63:32]. For an event with the 8-bit code \<open>E\<close> and unit mask
  \<open>U\<close> the value the configure loop builds is
  \<open>E | (U << 8) | (1 << 16) | (1 << 17) | (1 << 21) | (1 << 22)\<close>.
\<close>

theorem pmc_config_layout:
  "sizeof_bits (bit_fields c) = 8 * 8 \<and>
   bits 7 0 (as_u64 c) = uint (event_select c) \<and>
   bits 15 8 (as_u64 c) = uint (unit_mask c) \<and>
   bit (as_u64 c) 16 = user_mode c \<and>
   bit (as_u64 c) 17 = operating_system_mode c \<and>
   bit (as_u64 c) 18 = edge_detect c \<and>
   bit (as_u64 c) 19 = pin_control c \<and>
   bit (as_u64 c) 20 = interrupt_enable c \<and>
   bit (as_u64 c) 21 = any_thread c \<and>
   bit (as_u64 c) 22 = enable_counters c \<and>
   bit (as_u64 c) 23 = invert_counter_mask c \<and>
   bits 31 24 (as_u64 c) = uint (counter_mask c) \<and>
   bits 63 32 (as_u64 c) = uint (reserved c) \<and>
   (0 \<le> E \<and> E < 256 \<and> 0 \<le> U \<and> U < 256 \<longrightarrow>
      as_u64 (port_conf \<lparr>event = E, umask = U\<rparr>) =
        word_of_int E OR push_bit 8 (word_of_int U) OR push_bit 16 1 OR push_bit 17 1 OR
        push_bit 21 1 OR push_bit 22 1)"
  using sizeof_pmc_config_t [of c] field_event_select [of c] field_unit_mask [of c]
    bit_flags [of c] field_counter_mask [of c] field_reserved [of c]
    port_conf_value [of E U]
  by simp

theorem pmc_config_layout_witness:
  "(0::int) \<le> 0xa1 \<and> (0xa1::int) < 256 \<and> (0::int) \<le> 0x0c \<and> (0x0c::int) < 256 \<and>
   as_u64 (port_conf \<lparr>event = 0xa1, umask = 0x0c\<rparr>) = 0x630ca1"
  using pmc_config_layout [of conf_zero "0xa1" "0x0c"]
  by simp

section \<open>The MSR channel\<close>

text \<open>
  Claim C8. When \<open>pwrite\<close> and \<open>pread\<close> return no more than the 8 bytes asked for,
  \<open>wrmsr\<close> throws exactly when fewer than 8 bytes were accepted and \<open>rdmsr\<close> throws
  exactly when fewer than 8 bytes were read; otherwise \<open>wrmsr\<close> has passed the whole
  value at the register's offset and \<open>rdmsr\<close> returns the whole value read.
\<close>

theorem msr_io_error:
  assumes "sys_pwrite sys (trace w) (fd m) val reg \<le> 8"
    and "fst (sys_pread sys (trace w) (fd m) reg) \<le> 8"
  shows
    "wrmsr sys m reg val w =
       (if bytes_transferred (sys_pwrite sys (trace w) (fd m) val reg) < 8
        then Fail (RuntimeError ''failed write'') (emit (Pwrite (fd m) val reg) w)
        else Ok () (emit (Pwrite (fd m) val reg) w)) \<and>
     rdmsr sys m reg w =
       (if bytes_transferred (fst (sys_pread sys (trace w) (fd m) reg)) < 8
        then Fail (RuntimeError ''failed read'') (emit (Pread (fd m) reg) w)
        else Ok (snd (sys_pread sys (trace w) (fd m) reg)) (emit (Pread (fd m) reg) w))"
  using assms
  by (auto simp: wrmsr_def rdmsr_def bytes_transferred_def split: prod.splits)

theorem msr_io_error_witness:
  "wrmsr sys_ok (Msr 3) 0x188 0x630ca1 world0 =
     Ok () \<lparr>trace = [Pwrite 3 0x630ca1 0x188], stderr = []\<rparr> \<and>
   rdmsr sys_ok (Msr 3) 0x188 world0 =
     Ok 10000 \<lparr>trace = [Pread 3 0x188], stderr = []\<rparr> \<and>
   wrmsr sys_short (Msr 3) 0x188 0x630ca1 world0 =
     Fail (RuntimeError ''failed write'') \<lparr>trace = [Pwrite 3 0x630ca1 0x188], stderr = []\<rparr> \<and>
   rdmsr sys_short (Msr 3) 0x188 world0 =
     Fail (RuntimeError ''failed read'') \<lparr>trace = [Pread 3 0x188], stderr = []\<rparr>"
proof -
  have "sys_pwrite sys_ok (trace world0) (fd (Msr 3)) 0x630ca1 0x188 \<le> 8"
    and "fst (sys_pread sys_ok (trace world0) (fd (Msr 3)) 0x188) \<le> 8"
    by (simp_all add: sys_ok_def)
  from msr_io_error [OF this]
  have ok: "wrmsr sys_ok (Msr 3) 0x188 0x630ca1 world0 =
       Ok () \<lparr>trace = [Pwrite 3 0x630ca1 0x188], stderr = []\<rparr> \<and>
     rdmsr sys_ok (Msr 3) 0x188 world0 =
       Ok 10000 \<lparr>trace = [Pread 3 0x188], stderr = []\<rparr>"
    by (simp add: sys_ok_def world0_def emit_def bytes_transferred_def)
  have "sys_pwrite sys_short (trace world0) (fd (Msr 3)) 0x630ca1 0x188 \<le> 8"
    and "fst (sys_pread sys_short (trace world0) (fd (Msr 3)) 0x188) \<le> 8"
    by (simp_all add: sys_short_def)
  from msr_io_error [OF this]
  have "wrmsr sys_short (Msr 3) 0x188 0x630ca1 world0 =
       Fail (RuntimeError ''failed write'') \<lparr>trace = [Pwrite 3 0x630ca1 0x188], stderr = []\<rparr> \<and>
     rdmsr sys_short (Msr 3) 0x188 world0 =
       Fail (RuntimeError ''failed read'') \<lparr>trace = [Pread 3 0x188], stderr = []\<rparr>"
    by (simp add: sys_short_def world0_def emit_def bytes_transferred_def)
  with ok show ?thesis by simp
qed

section \<open>The compatibility gate\<close>

text \<open>
  Claim C5. \<open>main\<close> goes on past the gate exactly when the PMC version is at least 3,
  the family is 6 and the model is 42. Otherwise it exits with the nonzero status
  \<open>EXIT_FAILURE\<close>, having printed a message with the family and the model, and having
  made no call to the system.
\<close>

theorem compatibility_gate:
  "startup sys hw w =
     (if 3 \<le> version_id (pmcinfo (cpuid_0a hw)) \<and>
         cpu_family (cpuid_01 hw) = 6 \<and> cpu_model (cpuid_01 hw) = 42
      then after_gate sys hw (pmcinfo (cpuid_0a hw)) (print (banner hw) w)
      else Fail (Exit EXIT_FAILURE)
             \<lparr> trace = trace w,
               stderr = stderr w @ banner hw @
                 ''Sorry your CPU is not supported yet: family = '' @
                 to_string (cpu_family (cpuid_01 hw)) @ '', model = '' @
                 to_string (cpu_model (cpuid_01 hw)) @ endl \<rparr>) \<and>
   EXIT_FAILURE \<noteq> 0"
  by (simp add: startup_def Let_def print_def unsupported_message_def EXIT_FAILURE_def)

theorem compatibility_gate_witness:
  "startup sys_ok (sandy_bridge [thread_on 0 0, thread_on 0 1]) world0 =
     after_gate sys_ok (sandy_bridge [thread_on 0 0, thread_on 0 1])
       \<lparr>version_id = 3, num_pmc_per_thread = 4, pmc_bitwidth = 48\<rparr>
       (print (banner (sandy_bridge [thread_on 0 0, thread_on 0 1])) world0) \<and>
   startup sys_ok (ivy_bridge [thread_on 0 0]) world0 =
     Fail (Exit 1)
       \<lparr> trace = [],
         stderr = banner (ivy_bridge [thread_on 0 0]) @
           ''Sorry your CPU is not supported yet: family = 6, model = 58'' @ endl \<rparr>"
proof -
  have "startup sys_ok (sandy_bridge [thread_on 0 0, thread_on 0 1]) world0 =
     after_gate sys_ok (sandy_bridge [thread_on 0 0, thread_on 0 1])
       \<lparr>version_id = 3, num_pmc_per_thread = 4, pmc_bitwidth = 48\<rparr>
       (print (banner (sandy_bridge [thread_on 0 0, thread_on 0 1])) world0)"
    using compatibility_gate [of sys_ok "sandy_bridge [thread_on 0 0, thread_on 0 1]" world0]
    by (simp add: sandy_ids)
  moreover have "startup sys_ok (ivy_bridge [thread_on 0 0]) world0 =
     Fail (Exit 1)
       \<lparr> trace = [],
         stderr = banner (ivy_bridge [thread_on 0 0]) @
           ''Sorry your CPU is not supported yet: family = 6, model = 58'' @ endl \<rparr>"
    using compatibility_gate [of sys_ok "ivy_bridge [thread_on 0 0]" world0]
    by (simp add: ivy_ids world0_def EXIT_FAILURE_def to_string_small)
  ultimately show ?thesis by (rule conjI)
qed

section \<open>Configure\<close>

text \<open>
  Claim C6. A configure that completes has made, for every core and every event index
  \<open>i\<close>, in that order, one write to the event-select register of slot \<open>i % n\<close> on the
  core's handle at offset \<open>i / n\<close>, and nothing else; it completes when every core has
  a handle for every event and the writes are accepted. The value written is the
  encoding of a configuration with the event select and the unit mask of the \<open>i\<close>-th
  event, the user-mode, kernel-mode, any-thread and enable fields set, and every other
  field zero.
\<close>

theorem configure_writes:
  "(configure sys n core_msrs w = Ok u w' \<longrightarrow>
      w' = w\<lparr>trace := trace w @
             concat (map (\<lambda>c. map (\<lambda>i.
               Pwrite (fd (core_msrs ! c ! (i div size_t_of n)))
                 (as_u64 (port_conf (UOPS_DISPATCHED_PORT ! i)))
                 (IA32_PERFEVTSEL ! (i mod size_t_of n)))
               [0..<length UOPS_DISPATCHED_PORT]) [0..<length core_msrs])\<rparr>) \<and>
   (writes_ok sys \<and>
    (\<forall>c < length core_msrs. size_t_of n \<noteq> 0 \<and>
       (\<forall>i < length UOPS_DISPATCHED_PORT. i div size_t_of n < length (core_msrs ! c))) \<longrightarrow>
      configure sys n core_msrs w =
        Ok () (w\<lparr>trace := trace w @
             concat (map (\<lambda>c. map (\<lambda>i.
               Pwrite (fd (core_msrs ! c ! (i div size_t_of n)))
                 (as_u64 (port_conf (UOPS_DISPATCHED_PORT ! i)))
                 (IA32_PERFEVTSEL ! (i mod size_t_of n)))
               [0..<length UOPS_DISPATCHED_PORT]) [0..<length core_msrs])\<rparr>)) \<and>
   port_conf p =
     \<lparr> event_select = word_of_int (event p), unit_mask = word_of_int (umask p),
       user_mode = True, operating_system_mode = True, edge_detect = False,
       pin_control = False, interrupt_enable = False, any_thread = True,
       enable_counters = True, invert_counter_mask = False, counter_mask = 0,
       reserved = 0 \<rparr> \<and>
   (0 \<le> n \<and> n < 2 ^ 64 \<longrightarrow> size_t_of n = nat n)"
proof (intro conjI impI)
  assume "configure sys n core_msrs w = Ok u w'"
  then show "w' = w\<lparr>trace := trace w @
             concat (map (\<lambda>c. map (\<lambda>i.
               Pwrite (fd (core_msrs ! c ! (i div size_t_of n)))
                 (as_u64 (port_conf (UOPS_DISPATCHED_PORT ! i)))
                 (IA32_PERFEVTSEL ! (i mod size_t_of n)))
               [0..<length UOPS_DISPATCHED_PORT]) [0..<length core_msrs])\<rparr>"
    unfolding configure_def
    by (auto dest!: configure_cores_Ok simp: config_write_def [abs_def] ports_def)
next
  assume "writes_ok sys \<and>
    (\<forall>c < length core_msrs. size_t_of n \<noteq> 0 \<and>
       (\<forall>i < length UOPS_DISPATCHED_PORT. i div size_t_of n < length (core_msrs ! c)))"
  then have "writes_ok sys" and "\<forall>c \<in> set [0..<length core_msrs]. fits n (core_msrs ! c) ports"
    by (simp_all add: fits_ports del: set_upt)
  from configure_cores_fits [OF this(2,1)]
  show "configure sys n core_msrs w =
        Ok () (w\<lparr>trace := trace w @
             concat (map (\<lambda>c. map (\<lambda>i.
               Pwrite (fd (core_msrs ! c ! (i div size_t_of n)))
                 (as_u64 (port_conf (UOPS_DISPATCHED_PORT ! i)))
                 (IA32_PERFEVTSEL ! (i mod size_t_of n)))
               [0..<length UOPS_DISPATCHED_PORT]) [0..<length core_msrs])\<rparr>)"
    unfolding configure_def by (simp add: config_write_def [abs_def] ports_def)
next
  show "port_conf p =
     \<lparr> event_select = word_of_int (event p), unit_mask = word_of_int (umask p),
       user_mode = True, operating_system_mode = True, edge_detect = False,
       pin_control = False, interrupt_enable = False, any_thread = True,
       enable_counters = True, invert_counter_mask = False, counter_mask = 0,
       reserved = 0 \<rparr>"
    by (rule port_conf_fields)
next
  assume "0 \<le> n \<and> n < 2 ^ 64"
  then show "size_t_of n = nat n" by (simp add: size_t_of_nat)
qed

theorem configure_writes_witness:
  "configure sys_ok 4 [[Msr 3, Msr 4]] world0 =
     Ok () \<lparr> trace =
         [Pwrite 3 0x6301a1 0x186, Pwrite 3 0x6302a1 0x187, Pwrite 3 0x630ca1 0x188,
          Pwrite 3 0x6330a1 0x189, Pwrite 4 0x6340a1 0x186, Pwrite 4 0x6380a1 0x187],
       stderr = [] \<rparr>"
proof -
  have n: "size_t_of 4 = 4" by (simp add: size_t_of_def)
  have "\<forall>c < length [[Msr 3, Msr 4]]. size_t_of 4 \<noteq> 0 \<and>
       (\<forall>i < length UOPS_DISPATCHED_PORT. i div size_t_of 4 < length ([[Msr 3, Msr 4]] ! c))"
    by (simp add: n UOPS_DISPATCHED_PORT_def less_Suc_eq)
  with writes_ok_sys_ok
    configure_writes [of sys_ok 4 "[[Msr 3, Msr 4]]" world0 "()" world0 "UOPS_DISPATCHED_PORT ! 0"]
  have "configure sys_ok 4 [[Msr 3, Msr 4]] world0 =
        Ok () (world0\<lparr>trace := trace world0 @
             concat (map (\<lambda>c. map (\<lambda>i.
               Pwrite (fd ([[Msr 3, Msr 4]] ! c ! (i div size_t_of 4)))
                 (as_u64 (port_conf (UOPS_DISPATCHED_PORT ! i)))
                 (IA32_PERFEVTSEL ! (i mod size_t_of 4)))
               [0..<length UOPS_DISPATCHED_PORT]) [0..<length [[Msr 3, Msr 4]]])\<rparr>)"
    by blast
  then show ?thesis
    by (simp add: n ports_eval port_values world0_def IA32_PERFEVTSEL_def)
qed

section \<open>Events that do not fit the core\<close>

text \<open>
  Claim C1 says that an event list that needs a logical-processor offset \<open>i / n\<close> at or
  beyond the number of threads of a core is rejected by a planning step, before any MSR
  handle is opened and before any event-select write. \<open>main\<close> has no such step. On a
  supported part with 4 counters per thread, one core with one thread and the 6 ports,
  it opens the handle of the processor and writes the event-select registers of the
  first 4 events, and only then arrives at the fifth event, for which the core has no
  handle.
\<close>

theorem planner_counterexample:
  "num_pmc_per_thread (pmcinfo (cpuid_0a (sandy_bridge [thread_on 0 0]))) = 4 \<and>
   length UOPS_DISPATCHED_PORT = 6 \<and>
   startup sys_ok (sandy_bridge [thread_on 0 0]) world0 =
     Undefined IndexOutOfRange
       \<lparr> trace =
           [Open ''/dev/cpu/0/msr'',
            Pwrite 3 0x6301a1 0x186, Pwrite 3 0x6302a1 0x187,
            Pwrite 3 0x630ca1 0x188, Pwrite 3 0x6330a1 0x189],
         stderr = banner (sandy_bridge [thread_on 0 0]) \<rparr>"
proof -
  have n: "size_t_of 4 = 4" by (simp add: size_t_of_def)
  have "startup sys_ok (sandy_bridge [thread_on 0 0]) world0 =
     start_sampler sys_ok \<lparr>version_id = 3, num_pmc_per_thread = 4, pmc_bitwidth = 48\<rparr>
       [thread_on 0 0] (print (banner (sandy_bridge [thread_on 0 0])) world0)"
    by (simp add: startup_def sandy_ids after_gate_def)
       (simp add: sandy_bridge_def thread_on_def)
  also have "\<dots> = Undefined IndexOutOfRange
       \<lparr> trace =
           [Open ''/dev/cpu/0/msr'',
            Pwrite 3 0x6301a1 0x186, Pwrite 3 0x6302a1 0x187,
            Pwrite 3 0x630ca1 0x188, Pwrite 3 0x6330a1 0x189],
         stderr = banner (sandy_bridge [thread_on 0 0]) \<rparr>"
    by (simp add: start_sampler_def open_cores_def num_cores_of_def INT_MAX_def thread_on_def
        msr_open_def msr_path_def to_string_small sys_ok_def emit_def print_def world0_def
        configure_def ports_eval slot_of_def n wrmsr_def port_values IA32_PERFEVTSEL_def)
  finally show ?thesis
    by (simp add: sandy_ids UOPS_DISPATCHED_PORT_def)
qed

text \<open>
  Claim C1, as the program has it. The handles of all logical processors are opened
  first. When the writes are accepted and some event index needs an offset at or beyond
  the number of threads of core 0, the program has made the event-select writes of all
  the events before the first one without a handle, on the handles of core 0, when it
  arrives at the access to the handle that core 0 does not have. Nothing is printed up
  to there, and no exit status is produced. What the program does from there on, the
  source does not determine.
\<close>

theorem infeasible_plan_reaches_configure:
  assumes "writes_ok sys"
    and "\<forall>c \<in> set cpus. 0 \<le> core_id c"
    and "num_cores_of cpus = Some N"
    and "sys_alloc sys (trace w) (nat N)"
    and "0 < size_t_of (num_pmc_per_thread info)"
    and "i < length UOPS_DISPATCHED_PORT"
    and "length (filter (\<lambda>c. core_id c = 0) cpus) \<le> i div size_t_of (num_pmc_per_thread info)"
  shows "start_sampler sys info cpus w =
     Undefined IndexOutOfRange
       (w\<lparr>trace := trace w @ map (\<lambda>c. Open (msr_path c)) cpus @
            map (config_write (num_pmc_per_thread info) (handles_of_core sys (trace w) cpus 0))
              [0..<size_t_of (num_pmc_per_thread info) *
                   length (filter (\<lambda>c. core_id c = 0) cpus)]\<rparr>)"
proof -
  let ?n = "size_t_of (num_pmc_per_thread info)"
  let ?t = "length (filter (\<lambda>c. core_id c = 0) cpus)"
  have "?n * ?t \<le> ?n * (i div ?n)" using assms(7) by simp
  also have "\<dots> \<le> i" by simp
  finally have "?n * ?t < length UOPS_DISPATCHED_PORT" using assms(6) by simp
  with assms(1-5) show ?thesis by (rule start_sampler_overflow)
qed

theorem infeasible_plan_reaches_configure_witness:
  "start_sampler sys_ok \<lparr>version_id = 3, num_pmc_per_thread = 4, pmc_bitwidth = 48\<rparr>
     [thread_on 0 0] world0 =
   Undefined IndexOutOfRange
     \<lparr> trace =
         [Open ''/dev/cpu/0/msr'',
          Pwrite 3 0x6301a1 0x186, Pwrite 3 0x6302a1 0x187,
          Pwrite 3 0x630ca1 0x188, Pwrite 3 0x6330a1 0x189],
       stderr = [] \<rparr>"
proof -
  let ?info = "\<lparr>version_id = 3, num_pmc_per_thread = 4, pmc_bitwidth = 48\<rparr>"
  have n: "size_t_of 4 = 4" by (simp add: size_t_of_def)
  have ids: "\<forall>c \<in> set [thread_on 0 0]. 0 \<le> core_id c" by (simp add: thread_on_def)
  have num: "num_cores_of [thread_on 0 0] = Some 1"
    by (simp add: num_cores_of_def INT_MAX_def thread_on_def)
  have alloc: "sys_alloc sys_ok (trace world0) (nat 1)" by (simp add: sys_ok_def)
  have pos: "0 < size_t_of (num_pmc_per_thread ?info)" by (simp add: n)
  have i: "(4::nat) < length UOPS_DISPATCHED_PORT" by (simp add: UOPS_DISPATCHED_PORT_def)
  have t: "length (filter (\<lambda>c. core_id c = 0) [thread_on 0 0]) = 1"
    by (simp add: thread_on_def)
  then have few: "length (filter (\<lambda>c. core_id c = 0) [thread_on 0 0])
      \<le> 4 div size_t_of (num_pmc_per_thread ?info)"
    by (simp add: n)
  have h: "handles_of_core sys_ok (trace world0) [thread_on 0 0] 0 = [Msr 3]"
    by (simp add: handles_of_core_def thread_on_def sys_ok_def world0_def)
  have o: "map (\<lambda>c. Open (msr_path c)) [thread_on 0 0] = [Open ''/dev/cpu/0/msr'']"
    by (simp add: msr_path_def thread_on_def to_string_small)
  have c: "map (config_write 4 [Msr 3]) [0..<4] =
     [Pwrite 3 0x6301a1 0x186, Pwrite 3 0x6302a1 0x187,
      Pwrite 3 0x630ca1 0x188, Pwrite 3 0x6330a1 0x189]"
  proof -
    have "[0..<4] = [0, 1, 2, 3 :: nat]" by (simp add: upt_rec)
    then show ?thesis
      by (simp add: config_write_def n port_values IA32_PERFEVTSEL_def)
  qed
  from infeasible_plan_reaches_configure [OF writes_ok_sys_ok ids num alloc pos i few, unfolded t h o]
  show ?thesis
    by (simp add: c n world0_def)
qed

section \<open>Core indices\<close>

text \<open>
  Claim C7 says that cores are renumbered densely, so that the number of core entries
  is the number of distinct core ids and every entry is populated, also when the raw
  ids are not contiguous from 0. \<open>main\<close> allocates as many entries as the largest core
  id plus one and files each processor under its raw core id: with the core ids 0 and 2
  there are 3 entries for 2 cores, and the entry 1 has no handle.
\<close>

theorem dense_cores_counterexample:
  "num_cores_of [thread_on 0 0, thread_on 2 1] = Some 3 \<and>
   card (core_id ` set [thread_on 0 0, thread_on 2 1]) = 2 \<and>
   open_cores sys_ok [thread_on 0 0, thread_on 2 1] world0 =
     Ok [[Msr 3], [], [Msr 4]]
       \<lparr>trace = [Open ''/dev/cpu/0/msr'', Open ''/dev/cpu/1/msr''], stderr = []\<rparr>"
  by (simp add: open_cores_def num_cores_of_def INT_MAX_def thread_on_def msr_open_def
      msr_path_def to_string_small sys_ok_def emit_def world0_def numeral_3_eq_3)

text \<open>
  Claim C7, as the program has it. With at least one processor, core ids from 0 up to
  but not \<open>INT_MAX\<close>, and the vector of cores allocated, the number of entries is the
  largest core id plus one; one handle is opened for each processor, in the order of
  the topology, and the entry \<open>k\<close> holds the handles of exactly the processors whose
  core id is \<open>k\<close>, in that order. The number of entries is the number of distinct core
  ids exactly when the core ids are \<open>0, ..., num_cores - 1\<close>, and every entry is
  populated exactly then too.
\<close>

theorem cores_indexed_by_raw_id:
  assumes "cpus \<noteq> []"
    and "\<forall>c \<in> set cpus. 0 \<le> core_id c \<and> core_id c < INT_MAX"
    and "N = Max (core_id ` set cpus) + 1"
    and "sys_alloc sys (trace w) (nat N)"
  shows "num_cores_of cpus = Some N \<and>
     open_cores sys cpus w =
       Ok (map (handles_of_core sys (trace w) cpus) [0..<nat N])
          (w\<lparr>trace := trace w @ map (\<lambda>c. Open (msr_path c)) cpus\<rparr>) \<and>
     (int (card (core_id ` set cpus)) = N \<longleftrightarrow> core_id ` set cpus = {0..<N}) \<and>
     ((\<forall>k < nat N. handles_of_core sys (trace w) cpus k \<noteq> [])
        \<longleftrightarrow> core_id ` set cpus = {0..<N})"
proof -
  let ?S = "core_id ` set cpus"
  have num: "num_cores_of cpus = Some N"
    using num_cores_of_Max [OF assms(1,2)] assms(3) by simp
  have N: "1 \<le> N" by (rule num_cores_of_Some(1) [OF num])
  have sub: "?S \<subseteq> {0..<N}"
    using assms(2) num_cores_of_Some(3) [OF num] by auto
  have ids: "\<forall>c \<in> set cpus. 0 \<le> core_id c" using assms(2) by simp
  have opened: "open_cores sys cpus w =
       Ok (map (handles_of_core sys (trace w) cpus) [0..<nat N])
          (w\<lparr>trace := trace w @ map (\<lambda>c. Open (msr_path c)) cpus\<rparr>)"
    by (rule open_cores_Ok [OF num ids assms(4)])
  have card_iff: "int (card ?S) = N \<longleftrightarrow> ?S = {0..<N}"
  proof
    assume "int (card ?S) = N"
    then have "card ?S = card {0..<N}" using N by simp
    with sub show "?S = {0..<N}" by (intro card_subset_eq) simp_all
  next
    assume "?S = {0..<N}"
    then show "int (card ?S) = N" using N by simp
  qed
  have pop: "handles_of_core sys (trace w) cpus k \<noteq> [] \<longleftrightarrow> int k \<in> ?S" for k
  proof -
    have "handles_of_core sys (trace w) cpus k \<noteq> [] \<longleftrightarrow>
        filter (\<lambda>c. core_id c = int k) cpus \<noteq> []"
      using length_handles_of_core [of sys "trace w" cpus k] by (metis length_0_conv)
    also have "\<dots> \<longleftrightarrow> int k \<in> ?S"
      by (force simp: filter_empty_conv)
    finally show ?thesis .
  qed
  have pop_iff: "(\<forall>k < nat N. handles_of_core sys (trace w) cpus k \<noteq> []) \<longleftrightarrow> ?S = {0..<N}"
  proof
    assume all: "\<forall>k < nat N. handles_of_core sys (trace w) cpus k \<noteq> []"
    have "{0..<N} \<subseteq> ?S"
    proof
      fix x assume "x \<in> {0..<N}"
      then have "nat x < nat N" and "int (nat x) = x" by auto
      with all pop [of "nat x"] show "x \<in> ?S" by simp
    qed
    with sub show "?S = {0..<N}" by auto
  next
    assume eq: "?S = {0..<N}"
    show "\<forall>k < nat N. handles_of_core sys (trace w) cpus k \<noteq> []"
    proof (intro allI impI)
      fix k assume "k < nat N"
      then have "int k \<in> {0..<N}" by auto
      with eq pop [of k] show "handles_of_core sys (trace w) cpus k \<noteq> []" by simp
    qed
  qed
  from num opened card_iff pop_iff show ?thesis by blast
qed

theorem cores_indexed_by_raw_id_witness:
  "num_cores_of [thread_on 0 0, thread_on 0 1, thread_on 1 2, thread_on 1 3] = Some 2 \<and>
   open_cores sys_ok [thread_on 0 0, thread_on 0 1, thread_on 1 2, thread_on 1 3] world0 =
     Ok [[Msr 3, Msr 4], [Msr 5, Msr 6]]
       \<lparr> trace = [Open ''/dev/cpu/0/msr'', Open ''/dev/cpu/1/msr'',
                  Open ''/dev/cpu/2/msr'', Open ''/dev/cpu/3/msr''],
         stderr = [] \<rparr> \<and>
   int (card (core_id ` set [thread_on 0 0, thread_on 0 1, thread_on 1 2, thread_on 1 3])) = 2"
proof -
  let ?cpus = "[thread_on 0 0, thread_on 0 1, thread_on 1 2, thread_on 1 3]"
  have S: "core_id ` set ?cpus = {0, 1}"
    by (auto simp: thread_on_def)
  have "{0, 1 :: int} = {0..<2}" by auto
  with S have contiguous: "core_id ` set ?cpus = {0..<2}" by simp
  have ne: "?cpus \<noteq> []" by simp
  have ids: "\<forall>c \<in> set ?cpus. 0 \<le> core_id c \<and> core_id c < INT_MAX"
    by (simp add: thread_on_def INT_MAX_def)
  have N: "(2 :: int) = Max (core_id ` set ?cpus) + 1"
    unfolding S by simp
  have alloc: "sys_alloc sys_ok (trace world0) (nat 2)" by (simp add: sys_ok_def)
  from cores_indexed_by_raw_id [OF ne ids N alloc] contiguous
  have "num_cores_of ?cpus = Some 2"
    and "open_cores sys_ok ?cpus world0 =
       Ok (map (handles_of_core sys_ok (trace world0) ?cpus) [0..<nat 2])
          (world0\<lparr>trace := trace world0 @ map (\<lambda>c. Open (msr_path c)) ?cpus\<rparr>)"
    and "int (card (core_id ` set ?cpus)) = 2"
    by blast+
  moreover have "map (handles_of_core sys_ok (trace world0) ?cpus) [0..<nat 2] =
      [[Msr 3, Msr 4], [Msr 5, Msr 6]]"
  proof -
    have "[0..<nat 2] = [0, 1]" by (simp add: upt_rec)
    then show ?thesis
      by (simp add: handles_of_core_def thread_on_def sys_ok_def world0_def)
  qed
  moreover have "map (\<lambda>c. Open (msr_path c)) ?cpus =
      [Open ''/dev/cpu/0/msr'', Open ''/dev/cpu/1/msr'',
       Open ''/dev/cpu/2/msr'', Open ''/dev/cpu/3/msr'']"
    by (simp add: msr_path_def thread_on_def to_string_small to_string_small2)
  ultimately show ?thesis by (simp add: world0_def)
qed

section \<open>The tick\<close>

text \<open>
  Claim C2. Take a tick on a sampler whose cores have a handle for every event and a
  previous value for every event, in which every counter read returns 8 bytes, the
  value \<open>current c i\<close> for event \<open>i\<close> of core \<open>c\<close>. The tick sleeps, reads the cycle
  counter and then, for every core and every event in order, reads the counter of the
  event's slot on the event's handle; it prints, for every core, a bracketed group with
  one utilization per event, and a newline; it stores the values read as the new
  previous values and the cycle counter as the new baseline. The utilization printed for
  event \<open>i\<close> is the delta \<open>(current - previous) mod 2^64\<close>, a 64-bit unsigned value,
  divided by the elapsed cycles (the cycle counter read in this tick minus the baseline)
  and multiplied by 100, in the arithmetic of the floating-point unit. When the counter
  value has advanced by \<open>d < 2^64\<close> counts, wrapping around \<open>2^64\<close> or not, the delta is
  \<open>d\<close>; when \<open>current < previous\<close> it is \<open>current + 2^64 - previous\<close>.
\<close>

theorem tick_utilization:
  assumes "size_t_of n \<noteq> 0"
    and "\<forall>c < length cm. \<forall>i < length UOPS_DISPATCHED_PORT. i div size_t_of n < length (cm ! c)"
    and "length previous = length cm"
    and "\<forall>c < length cm. length (previous ! c) = length UOPS_DISPATCHED_PORT"
    and "\<forall>c < length cm. \<forall>i < length UOPS_DISPATCHED_PORT.
           sys_pread sys
             (trace w @ [Usleep (1000 * 1000), Rdtsc] @
                concat (map (\<lambda>c'. map (read_event n (cm ! c')) [0..<length UOPS_DISPATCHED_PORT])
                          [0..<c]) @
                map (read_event n (cm ! c)) [0..<i])
             (fd (cm ! c ! (i div size_t_of n))) (IA32_PMC ! (i mod size_t_of n))
           = (8, current c i)"
    and "tsc = hw_rdtsc sys (trace w @ [Usleep (1000 * 1000)])"
    and "elapsed_cycles = tsc - tsc0"
  shows
    "tick sys fp n \<lparr>core_msrs_of = cm, values_of = previous, tsc0_of = tsc0\<rparr> w =
       Ok \<lparr> core_msrs_of = cm,
            values_of = map (\<lambda>c. map (current c) [0..<length UOPS_DISPATCHED_PORT]) [0..<length cm],
            tsc0_of = tsc \<rparr>
          \<lparr> trace = trace w @ [Usleep (1000 * 1000), Rdtsc] @
              concat (map (\<lambda>c. map (\<lambda>i.
                  Pread (fd (cm ! c ! (i div size_t_of n))) (IA32_PMC ! (i mod size_t_of n)))
                [0..<length UOPS_DISPATCHED_PORT]) [0..<length cm]),
            stderr = stderr w @
              concat (map (\<lambda>c. ''['' @
                concat (map (\<lambda>i. printf_6_2f_percent fp
                    (dmul fp
                       (ddiv fp
                          (u64_to_double fp
                             (word_of_int ((uint (current c i) - uint (previous ! c ! i)) mod 2 ^ 64)))
                          (u64_to_double fp elapsed_cycles))
                       (int_to_double fp 100)))
                  [0..<length UOPS_DISPATCHED_PORT]) @
                ''] '') [0..<length cm]) @ endl \<rparr> \<and>
     (\<forall>val0 d. d < 2 ^ 64 \<longrightarrow>
        utilization fp (val0 + of_nat d) val0 hz =
          dmul fp (ddiv fp (u64_to_double fp (of_nat d)) (u64_to_double fp hz))
            (int_to_double fp 100) \<and>
        unat (of_nat d :: u64) = d) \<and>
     (\<forall>val val0. val < val0 \<longrightarrow>
        utilization fp val val0 hz =
          dmul fp (ddiv fp (u64_to_double fp (word_of_int (uint val + 2 ^ 64 - uint val0)))
                     (u64_to_double fp hz))
            (int_to_double fp 100))"
proof (intro conjI allI impI)
  have reads: "\<forall>c < length cm. \<forall>i < length UOPS_DISPATCHED_PORT.
           sys_pread sys
             (trace w @ [Usleep (1000 * 1000), Rdtsc] @
                concat (map (\<lambda>c'. map (read_event n (cm ! c')) ports) [0..<c]) @
                map (read_event n (cm ! c)) [0..<i])
             (fd (cm ! c ! (i div size_t_of n))) (IA32_PMC ! (i mod size_t_of n))
           = (8, current c i)"
    using assms(5) by (simp only: ports_def)
  from tick_runs [OF assms(1-4) reads, of fp tsc0]
  show "tick sys fp n \<lparr>core_msrs_of = cm, values_of = previous, tsc0_of = tsc0\<rparr> w =
       Ok \<lparr> core_msrs_of = cm,
            values_of = map (\<lambda>c. map (current c) [0..<length UOPS_DISPATCHED_PORT]) [0..<length cm],
            tsc0_of = tsc \<rparr>
          \<lparr> trace = trace w @ [Usleep (1000 * 1000), Rdtsc] @
              concat (map (\<lambda>c. map (\<lambda>i.
                  Pread (fd (cm ! c ! (i div size_t_of n))) (IA32_PMC ! (i mod size_t_of n)))
                [0..<length UOPS_DISPATCHED_PORT]) [0..<length cm]),
            stderr = stderr w @
              concat (map (\<lambda>c. ''['' @
                concat (map (\<lambda>i. printf_6_2f_percent fp
                    (dmul fp
                       (ddiv fp
                          (u64_to_double fp
                             (word_of_int ((uint (current c i) - uint (previous ! c ! i)) mod 2 ^ 64)))
                          (u64_to_double fp elapsed_cycles))
                       (int_to_double fp 100)))
                  [0..<length UOPS_DISPATCHED_PORT]) @
                ''] '') [0..<length cm]) @ endl \<rparr>"
    unfolding delta_mod utilization_def read_event_def [abs_def] ports_def assms(6,7) .
next
  fix val0 :: u64 and d :: nat assume d: "d < 2 ^ 64"
  show "utilization fp (val0 + of_nat d) val0 hz =
          dmul fp (ddiv fp (u64_to_double fp (of_nat d)) (u64_to_double fp hz))
            (int_to_double fp 100)"
    by (simp add: utilization_def)
  from d show "unat (of_nat d :: u64) = d" by (simp add: unat_of_nat)
next
  fix val val0 :: u64 assume "val < val0"
  then show "utilization fp val val0 hz =
          dmul fp (ddiv fp (u64_to_double fp (word_of_int (uint val + 2 ^ 64 - uint val0)))
                     (u64_to_double fp hz))
            (int_to_double fp 100)"
    unfolding utilization_def by (simp only: delta_wrapped(1))
qed


theorem tick_utilization_witness:
  "tick sys_ok exact_fpu 4
     \<lparr> core_msrs_of = [[Msr 3, Msr 4]],
       values_of = [[0xFFFFFFFFFFFFFFF0, 0, 0, 0, 0, 0]],
       tsc0_of = 0 \<rparr>
     \<lparr>trace = [Rdtsc], stderr = []\<rparr> =
   Ok \<lparr> core_msrs_of = [[Msr 3, Msr 4]],
        values_of = [[10000, 10000, 10000, 10000, 10000, 10000]],
        tsc0_of = 1000000 \<rparr>
      \<lparr> trace = [Rdtsc, Usleep 1000000, Rdtsc,
                 Pread 3 0xc1, Pread 3 0xc2, Pread 3 0xc3, Pread 3 0xc4,
                 Pread 4 0xc1, Pread 4 0xc2],
        stderr = ''[1%1%1%1%1%1%] '' @ endl \<rparr>"
proof -
  let ?cm = "[[Msr 3, Msr 4]]"
  let ?prev = "[[0xFFFFFFFFFFFFFFF0, 0, 0, 0, 0, 0 :: u64]]"
  let ?w = "\<lparr>trace = [Rdtsc], stderr = []\<rparr>"
  have n: "size_t_of 4 = 4" by (simp add: size_t_of_def)
  have six: "length UOPS_DISPATCHED_PORT = 6" by (simp add: UOPS_DISPATCHED_PORT_def)
  have h1: "size_t_of 4 \<noteq> 0" by (simp add: n)
  have h2: "\<forall>c < length ?cm. \<forall>i < length UOPS_DISPATCHED_PORT. i div size_t_of 4 < length (?cm ! c)"
  proof (intro allI impI)
    fix c i :: nat assume "c < length ?cm" and "i < length UOPS_DISPATCHED_PORT"
    then have c: "c = 0" and "i < 6" by (simp_all add: six)
    then have "i div 4 < 2" by arith
    with c show "i div size_t_of 4 < length (?cm ! c)" by (simp add: n)
  qed
  have h3: "length ?prev = length ?cm" by simp
  have h4: "\<forall>c < length ?cm. length (?prev ! c) = length UOPS_DISPATCHED_PORT"
    by (simp add: six)
  have h5: "\<forall>c < length ?cm. \<forall>i < length UOPS_DISPATCHED_PORT.
           sys_pread sys_ok
             (trace ?w @ [Usleep (1000 * 1000), Rdtsc] @
                concat (map (\<lambda>c'. map (read_event 4 (?cm ! c')) [0..<length UOPS_DISPATCHED_PORT])
                          [0..<c]) @
                map (read_event 4 (?cm ! c)) [0..<i])
             (fd (?cm ! c ! (i div size_t_of 4))) (IA32_PMC ! (i mod size_t_of 4))
           = (8, (\<lambda>c i. 10000) c i)"
    by (simp add: sys_ok_def)
  have h6: "(1000000 :: u64) = hw_rdtsc sys_ok (trace ?w @ [Usleep (1000 * 1000)])"
    by (simp add: sys_ok_def)
  have h7: "(1000000 :: u64) = 1000000 - 0" by simp
  have p6: "[0..<length UOPS_DISPATCHED_PORT] = [0, 1, 2, 3, 4, 5]"
    by (simp add: six upt_rec)
  have d0: "word_of_int ((uint (10000 :: u64) - uint (0xFFFFFFFFFFFFFFF0 :: u64)) mod 2 ^ 64) = (10016 :: u64)"
    by simp
  have d1: "word_of_int ((uint (10000 :: u64) - uint (0 :: u64)) mod 2 ^ 64) = (10000 :: u64)"
    by simp
  from tick_utilization [OF h1 h2 h3 h4 h5 h6 h7, of exact_fpu, THEN conjunct1]
  show ?thesis
    by (simp add: p6 n d0 d1 IA32_PMC_def exact_fpu_def to_string_small)
qed

end
